theory Spec2Isabelle
  imports Main "HOL-Library.Char_ord" "HOL-Library.List_Lexorder"
begin

section \<open>Results: fatal errors and panics as values\<close>

text \<open>
  \<open>core.Fatal\<close> aborts the process with a formatted message; a method call on a nil
  interface value is a Go runtime panic. Both end the computation, so every function
  that can reach one returns \<open>error + 'a\<close>, the error on the left.
\<close>

datatype error =
    Fatal string
  | NilDereference

fun bindE :: "error + 'a \<Rightarrow> ('a \<Rightarrow> error + 'b) \<Rightarrow> error + 'b" where
  "bindE (Inl e) f = Inl e"
| "bindE (Inr x) f = f x"

text \<open>
  The recursive functions carry a bound on the depth of the Go call stack; \<open>None\<close>
  is a computation that needed a deeper stack than the bound allows.
\<close>

fun bindR :: "(error + 'a) option \<Rightarrow> ('a \<Rightarrow> (error + 'b) option) \<Rightarrow> (error + 'b) option" where
  "bindR None f = None"
| "bindR (Some (Inl e)) f = Some (Inl e)"
| "bindR (Some (Inr x)) f = f x"

section \<open>Strings and formatting (Go standard library)\<close>

text \<open>
  \<open>strings.Join\<close>, and the \<open>%q\<close> verb of \<open>fmt\<close> on a string, which is
  \<open>strconv.Quote\<close>: a Go string literal between double quotes. A Go string is a
  sequence of bytes (here: of characters, one per byte). The quoting loop reads it
  rune by rune in UTF-8: the double quote and the backslash are written with a
  backslash before them, a printable rune as it is, the control characters bell,
  backspace, form feed, newline, carriage return, tab and vertical tab as
  \<open>\a \b \f \n \r \t \v\<close>, the other bytes below the space and the byte \<open>0x7f\<close> as
  \<open>\xNN\<close>, a byte that starts no valid UTF-8 sequence also as \<open>\xNN\<close>, and any other
  rune as \<open>\uNNNN\<close> or \<open>\UNNNNNNNN\<close>.

  Which runes are printable (\<open>strconv.IsPrint\<close>) is written out for the runes up to
  \<open>0xff\<close>, as in the library; for the runes above, the library looks into tables
  generated from the Unicode database, which the model takes as the parameter
  \<open>table\<close>.
\<close>

fun Join :: "string list \<Rightarrow> string \<Rightarrow> string" where
  "Join [] sep = []"
| "Join [x] sep = x"
| "Join (x # y # ys) sep = x @ sep @ Join (y # ys) sep"

definition dquote :: char where
  "dquote = CHR 0x22"

definition backslash :: char where
  "backslash = CHR 0x5C"

definition RuneError :: nat where
  "RuneError = 0xFFFD"

definition lowerhex :: "nat \<Rightarrow> char" where
  "lowerhex k = ''0123456789abcdef'' ! (k mod 16)"

text \<open>
  \<open>utf8.DecodeRuneInString\<close>: the first rune of a string and its width in bytes;
  \<open>(RuneError, 1)\<close> when the string does not start with a valid encoding. The
  library reads the size of the sequence and the range accepted for its second byte
  from a table indexed by the first byte; the conditions on \<open>s0\<close> below are that
  table.
\<close>

definition DecodeRuneInString :: "string \<Rightarrow> nat \<times> nat" where
  "DecodeRuneInString s =
     (case s of
        [] \<Rightarrow> (RuneError, 0)
      | c0 # cs \<Rightarrow>
          (let s0 = (of_char c0 :: nat) in
           if s0 < 0x80 then (s0, 1)
           else if s0 < 0xC2 \<or> 0xF4 < s0 then (RuneError, 1)
           else
             (let sz = (if s0 < 0xE0 then 2 else if s0 < 0xF0 then 3 else 4 :: nat);
                  lo = (if s0 = 0xE0 then 0xA0 else if s0 = 0xF0 then 0x90 else 0x80 :: nat);
                  hi = (if s0 = 0xED then 0x9F else if s0 = 0xF4 then 0x8F else 0xBF :: nat)
              in if length s < sz then (RuneError, 1)
                 else
                   (let s1 = (of_char (s ! 1) :: nat) in
                    if s1 < lo \<or> hi < s1 then (RuneError, 1)
                    else if sz \<le> 2 then ((s0 mod 32) * 64 + s1 mod 64, 2)
                    else
                      (let s2 = (of_char (s ! 2) :: nat) in
                       if s2 < 0x80 \<or> 0xBF < s2 then (RuneError, 1)
                       else if sz \<le> 3
                       then ((s0 mod 16) * 4096 + (s1 mod 64) * 64 + s2 mod 64, 3)
                       else
                         (let s3 = (of_char (s ! 3) :: nat) in
                          if s3 < 0x80 \<or> 0xBF < s3 then (RuneError, 1)
                          else ((s0 mod 8) * 262144 + (s1 mod 64) * 4096 + (s2 mod 64) * 64
                                  + s3 mod 64, 4)))))))"

text \<open>\<open>utf8.AppendRune\<close>: the UTF-8 encoding of a rune.\<close>

definition AppendRune :: "nat \<Rightarrow> string" where
  "AppendRune r =
     (if r \<le> 0x7F then [char_of r]
      else if r \<le> 0x7FF then [char_of (0xC0 + r div 64), char_of (0x80 + r mod 64)]
      else if 0x10FFFF < r \<or> (0xD800 \<le> r \<and> r \<le> 0xDFFF)
      then [char_of (0xEF :: nat), char_of (0xBF :: nat), char_of (0xBD :: nat)]
      else if r \<le> 0xFFFF
      then [char_of (0xE0 + r div 4096), char_of (0x80 + (r div 64) mod 64), char_of (0x80 + r mod 64)]
      else [char_of (0xF0 + r div 262144), char_of (0x80 + (r div 4096) mod 64),
            char_of (0x80 + (r div 64) mod 64), char_of (0x80 + r mod 64)])"

definition IsPrint :: "(nat \<Rightarrow> bool) \<Rightarrow> nat \<Rightarrow> bool" where
  "IsPrint table r =
     (if r \<le> 0xFF
      then (if 0x20 \<le> r \<and> r \<le> 0x7E then True
            else if 0xA1 \<le> r then r \<noteq> 0xAD
            else False)
      else table r)"

definition ValidRune :: "nat \<Rightarrow> bool" where
  "ValidRune r = (r < 0xD800 \<or> (0xDFFF < r \<and> r \<le> 0x10FFFF))"

text \<open>\<open>appendEscapedRune\<close> of \<open>strconv\<close>, for the double quote as the quote character.\<close>

definition appendEscapedRune :: "(nat \<Rightarrow> bool) \<Rightarrow> nat \<Rightarrow> string" where
  "appendEscapedRune table r =
     (if r = 0x22 \<or> r = 0x5C then [backslash, char_of r]
      else if IsPrint table r then AppendRune r
      else if r = 7 then [backslash, CHR ''a'']
      else if r = 8 then [backslash, CHR ''b'']
      else if r = 12 then [backslash, CHR ''f'']
      else if r = 10 then [backslash, CHR ''n'']
      else if r = 13 then [backslash, CHR ''r'']
      else if r = 9 then [backslash, CHR ''t'']
      else if r = 11 then [backslash, CHR ''v'']
      else if r < 0x20 \<or> r = 0x7F
      then [backslash, CHR ''x'', lowerhex (r div 16), lowerhex r]
      else
        (let r = (if \<not> ValidRune r then RuneError else r) in
         if r < 0x10000
         then backslash # CHR ''u'' # map (\<lambda>s. lowerhex (r div 2 ^ s)) [12, 8, 4, 0]
         else backslash # CHR ''U'' # map (\<lambda>s. lowerhex (r div 2 ^ s)) [28, 24, 20, 16, 12, 8, 4, 0]))"

text \<open>The loop of \<open>appendQuotedWith\<close> over the string, and \<open>%q\<close> itself.\<close>

function appendQuoted_loop :: "(nat \<Rightarrow> bool) \<Rightarrow> string \<Rightarrow> string" where
  "appendQuoted_loop table [] = []"
| "appendQuoted_loop table (c # cs) =
     (let (r, width) = (if (of_char c :: nat) \<ge> 0x80 then DecodeRuneInString (c # cs)
                        else (of_char c, 1))
      in (if width = 1 \<and> r = RuneError
          then [backslash, CHR ''x'', lowerhex (of_char c div 16), lowerhex (of_char c)]
          else appendEscapedRune table r)
         @ appendQuoted_loop table (drop width (c # cs)))"
  by pat_completeness auto
termination
proof (relation "measure (\<lambda>(table, s). length s)", goal_cases)
  case 1
  show ?case by simp
next
  case (2 table c cs x r width)
  have "0 < snd (DecodeRuneInString (c # cs))"
    by (simp add: DecodeRuneInString_def Let_def)
  then have "0 < snd (if (of_char c :: nat) \<ge> 0x80 then DecodeRuneInString (c # cs)
                      else (of_char c, 1))"
    by simp
  with 2 have "0 < width" by (metis (full_types) snd_conv)
  then show ?case by simp
qed

definition fmt_q :: "(nat \<Rightarrow> bool) \<Rightarrow> string \<Rightarrow> string" where
  "fmt_q table s = dquote # appendQuoted_loop table s @ [dquote]"

section \<open>Paths of the build engine\<close>

text \<open>
  Modelled from the spec: the path values of package \<open>core\<close> (\<open>core.Path\<close>,
  \<open>core.OutPath\<close>, \<open>core.GlobalPath\<close>) and their operations, of which the sources
  hold only the calls. An \<open>OutPath\<close> is relative to the build output directory; a
  \<open>Path\<close> is relative to the source directory, global, or an \<open>OutPath\<close> (the interface
  \<open>core.OutPath\<close> extends \<open>core.Path\<close>). \<open>WithPrefix\<close> and \<open>WithExt\<close> give a path in
  the output directory (prefix and extension rewrite), \<open>Absolute\<close> and \<open>Relative\<close>
  render a path. The two directories are part of the process environment; the record
  that holds them also holds the table of the printable runes above \<open>0xff\<close> that \<open>%q\<close>
  looks into.
\<close>

datatype OutPath = OutPath string

datatype Path = SourcePath string | GlobalPath string | AsPath OutPath

record dirs =
  sourceDir :: string
  buildDir :: string
  isPrintTable :: "nat \<Rightarrow> bool"

fun Relative :: "Path \<Rightarrow> string" where
  "Relative (SourcePath r) = r"
| "Relative (GlobalPath a) = a"
| "Relative (AsPath (OutPath r)) = r"

fun Absolute :: "dirs \<Rightarrow> Path \<Rightarrow> string" where
  "Absolute d (SourcePath r) = sourceDir d @ ''/'' @ r"
| "Absolute d (GlobalPath a) = a"
| "Absolute d (AsPath (OutPath r)) = buildDir d @ ''/'' @ r"

definition WithPrefix :: "Path \<Rightarrow> string \<Rightarrow> OutPath" where
  "WithPrefix p prefix = OutPath (prefix @ Relative p)"

text \<open>The extension is what follows the last dot of the last path element.\<close>

definition strip_ext :: "string \<Rightarrow> string" where
  "strip_ext r =
     (let base = rev (takeWhile (\<lambda>c. c \<noteq> CHR ''/'') (rev r))
      in if CHR ''.'' \<in> set base
         then rev (tl (dropWhile (\<lambda>c. c \<noteq> CHR ''.'') (rev r)))
         else r)"

definition WithExt :: "Path \<Rightarrow> string \<Rightarrow> OutPath" where
  "WithExt p ext = OutPath (strip_ext (Relative p) @ ''.'' @ ext)"

text \<open>Modelled from the spec: \<open>%q\<close> on a path quotes its absolute rendering.\<close>

definition fmt_q_path :: "dirs \<Rightarrow> Path \<Rightarrow> string" where
  "fmt_q_path d p = fmt_q (isPrintTable d) (Absolute d p)"

section \<open>Toolchains\<close>

text \<open>
  \<open>[]Dep\<close> is a slice of interface values. A library or a toolchain holds its
  dependency references as addresses into a heap of \<open>Dep\<close> values, so that two
  libraries can share a dependency and a reference chain can lead back to where it
  started. An address outside the heap is the nil interface value.
\<close>

type_synonym DepRef = nat

record GccToolchain =
  gcc_Ar :: Path
  gcc_As :: Path
  gcc_Cc :: Path
  gcc_Cpp :: Path
  gcc_Cxx :: Path
  gcc_Objcopy :: Path
  gcc_Ld :: Path
  gcc_Includes :: "Path list"
  gcc_Deps :: "DepRef list"
  gcc_LinkerScript :: "Path option"
  gcc_CompilerFlags :: "string list"
  gcc_LinkerFlags :: "string list"
  gcc_ToolchainName :: string
  gcc_ArchName :: string
  gcc_TargetName :: string
  gcc_CompatibleWith :: "string list"

text \<open>
  \<open>Toolchain\<close> is an interface. \<open>GccToolchain\<close> is its implementation in the
  sources; \<open>OtherToolchain\<close> stands for an implementation that has the nine methods of
  the interface and none of the optional ones (\<open>Accepts\<close>, \<open>Architecture\<close>,
  \<open>Freestanding\<close>).
\<close>

record OtherToolchain =
  other_Name :: string
  other_ObjectFile :: "OutPath \<Rightarrow> OutPath \<Rightarrow> string list \<Rightarrow> Path list \<Rightarrow> Path \<Rightarrow> string"
  other_StaticLibrary :: "Path \<Rightarrow> Path list \<Rightarrow> string"
  other_SharedLibrary :: "Path \<Rightarrow> Path list \<Rightarrow> string"
  other_Binary :: "Path \<Rightarrow> Path list \<Rightarrow> Path list \<Rightarrow> Path list \<Rightarrow> string list \<Rightarrow> Path option \<Rightarrow> string"
  other_BlobObject :: "OutPath \<Rightarrow> Path \<Rightarrow> string"
  other_RawBinary :: "OutPath \<Rightarrow> Path \<Rightarrow> string"
  other_StdDeps :: "DepRef list"
  other_Script :: "Path option"

datatype Toolchain = Gcc GccToolchain | Other OtherToolchain

fun Name :: "Toolchain \<Rightarrow> string" where
  "Name (Gcc gcc) = gcc_ToolchainName gcc"
| "Name (Other t) = other_Name t"

fun StdDeps :: "Toolchain \<Rightarrow> DepRef list" where
  "StdDeps (Gcc gcc) = gcc_Deps gcc"
| "StdDeps (Other t) = other_StdDeps t"

fun Script :: "Toolchain \<Rightarrow> Path option" where
  "Script (Gcc gcc) = gcc_LinkerScript gcc"
| "Script (Other t) = other_Script t"

text \<open>The loop of \<open>GccToolchain.Accepts\<close> over \<open>CompatibleWith\<close>.\<close>

fun accepts_loop :: "string list \<Rightarrow> string \<Rightarrow> bool" where
  "accepts_loop [] n = False"
| "accepts_loop (cw # cws) n = (if cw = n then True else accepts_loop cws n)"

definition GccToolchain_Accepts :: "GccToolchain \<Rightarrow> Toolchain \<Rightarrow> bool" where
  "GccToolchain_Accepts gcc tc = accepts_loop (gcc_CompatibleWith gcc) (Name tc)"

text \<open>
  \<open>ToolchainAccepts\<close>: the type assertion on \<open>parent\<close> succeeds for the implementation
  that has an \<open>Accepts\<close> method.
\<close>

fun ToolchainAccepts :: "Toolchain \<Rightarrow> Toolchain \<Rightarrow> bool" where
  "ToolchainAccepts parent child =
     (if Name parent = Name child then True
      else (case parent of
              Gcc gcc \<Rightarrow> GccToolchain_Accepts gcc child
            | Other t \<Rightarrow> False))"

section \<open>The toolchain registry and the default toolchain\<close>

text \<open>
  The process environment: the registry \<open>toolchains\<close> (a Go map, here an association
  list read with \<open>map_of\<close>), the value of the flag \<open>cc-toolchain\<close>, and the engine's
  directories.
\<close>

record env =
  toolchains :: "(string \<times> Toolchain) list"
  defaultToolchainFlag :: string
  env_dirs :: dirs

definition RegisterToolchain :: "env \<Rightarrow> Toolchain \<Rightarrow> error + (Toolchain \<times> env)" where
  "RegisterToolchain e toolchain =
     (case map_of (toolchains e) (Name toolchain) of
        Some found \<Rightarrow>
          Inl (Fatal (''A toolchain with name '' @ Name toolchain @ '' has already been registered''))
      | None \<Rightarrow>
          Inr (toolchain, e\<lparr>toolchains := (Name toolchain, toolchain) # toolchains e\<rparr>))"

definition DefaultToolchain :: "env \<Rightarrow> error + Toolchain" where
  "DefaultToolchain e =
     (case map_of (toolchains e) (defaultToolchainFlag e) of
        Some toolchain \<Rightarrow> Inr toolchain
      | None \<Rightarrow>
          Inl (Fatal (''No registered toolchain '' @ fmt_q (isPrintTable (env_dirs e)) (defaultToolchainFlag e)
                 @ ''. Registered toolchains: ''
                 @ Join (sort (map (fmt_q (isPrintTable (env_dirs e)))
                                   (remdups (map fst (toolchains e))))) '', '')))"

definition toolchainOrDefault :: "env \<Rightarrow> Toolchain option \<Rightarrow> error + Toolchain" where
  "toolchainOrDefault e toolchain =
     (case toolchain of
        None \<Rightarrow> DefaultToolchain e
      | Some t \<Rightarrow> Inr t)"

section \<open>Libraries and dependency references\<close>

record Library =
  lib_Out :: "OutPath option"
  lib_Srcs :: "Path list"
  lib_Blobs :: "Path list"
  lib_Objs :: "Path list"
  lib_Includes :: "Path list"
  lib_CompilerFlags :: "string list"
  lib_Deps :: "DepRef list"
  lib_Shared :: bool
  lib_AlwaysLink :: bool
  lib_Toolchain :: "Toolchain option"

record multipleToolchainLibrary =
  mtl_baseOut :: "OutPath option"
  mtl_lib :: Library

text \<open>The two implementations of the interface \<open>Dep\<close>.\<close>

datatype Dep = DepLibrary Library | DepMultipleToolchainLibrary multipleToolchainLibrary

type_synonym heap = "Dep list"

definition load :: "heap \<Rightarrow> DepRef \<Rightarrow> Dep option" where
  "load h r = (if r < length h then Some (h ! r) else None)"

definition MultipleToolchains :: "Library \<Rightarrow> error + multipleToolchainLibrary" where
  "MultipleToolchains l =
     (if lib_Out l = None then Inl (Fatal ''Out field is required for cc.Library'')
      else Inr \<lparr>mtl_baseOut = lib_Out l, mtl_lib = l\<rparr>)"

text \<open>
  \<open>multipleToolchainLibrary.CcLibrary\<close>. The condition calls \<open>DefaultToolchain()\<close>
  whatever the requested toolchain is; \<open>WithPrefix\<close> on a nil \<open>baseOut\<close> panics.
\<close>

definition multipleToolchainLibrary_CcLibrary ::
  "env \<Rightarrow> multipleToolchainLibrary \<Rightarrow> Toolchain option \<Rightarrow> error + Library" where
  "multipleToolchainLibrary_CcLibrary e mtl toolchain =
     bindE (toolchainOrDefault e toolchain) (\<lambda>toolchain.
     bindE (DefaultToolchain e) (\<lambda>dflt.
     bindE (if Name toolchain \<noteq> Name dflt
            then (case mtl_baseOut mtl of
                    None \<Rightarrow> Inl NilDereference
                  | Some b \<Rightarrow> Inr ((mtl_lib mtl)\<lparr>lib_Out := Some (WithPrefix (AsPath b) (Name toolchain @ ''/''))\<rparr>))
            else Inr (mtl_lib mtl)) (\<lambda>tcLib.
     Inr (tcLib\<lparr>lib_Toolchain := Some toolchain\<rparr>))))"

text \<open>
  \<open>Library.CcLibrary\<close>. The arguments of \<open>core.Fatal\<close> are evaluated first:
  \<open>lib.Out.Relative()\<close> panics on a nil \<open>Out\<close>.
\<close>

definition Library_CcLibrary :: "env \<Rightarrow> Library \<Rightarrow> Toolchain option \<Rightarrow> error + Library" where
  "Library_CcLibrary e l toolchain =
     bindE (toolchainOrDefault e toolchain) (\<lambda>toolchain.
     bindE (toolchainOrDefault e (lib_Toolchain l)) (\<lambda>pinned.
       if \<not> ToolchainAccepts toolchain pinned
       then (case lib_Out l of
               None \<Rightarrow> Inl NilDereference
             | Some out \<Rightarrow>
                 Inl (Fatal (''Library '' @ Relative (AsPath out) @ '' does not support toolchain ''
                        @ Name toolchain)))
       else Inr l))"

text \<open>Dynamic dispatch of \<open>dep.CcLibrary(toolchain)\<close>; a nil \<open>dep\<close> panics.\<close>

fun Dep_CcLibrary :: "env \<Rightarrow> Dep option \<Rightarrow> Toolchain option \<Rightarrow> error + Library" where
  "Dep_CcLibrary e None toolchain = Inl NilDereference"
| "Dep_CcLibrary e (Some (DepLibrary l)) toolchain = Library_CcLibrary e l toolchain"
| "Dep_CcLibrary e (Some (DepMultipleToolchainLibrary mtl)) toolchain =
     multipleToolchainLibrary_CcLibrary e mtl toolchain"

section \<open>The dependency collector\<close>

text \<open>
  \<open>collectDepsWithToolchainRec\<close>. The slice \<open>deps\<close> holds interface values, nil
  included; the references of a resolved library are loaded from the heap. The Go
  map \<open>visited\<close> only ever stores \<open>true\<close> and is read with default \<open>false\<close>: it is a
  set of absolute paths, returned updated. The first argument bounds the depth of the
  recursion: the loop over \<open>deps\<close> stays in its frame, the call on \<open>lib.Deps\<close> takes
  a new one. \<open>lib.Out.Absolute()\<close> panics on a nil \<open>Out\<close>.
\<close>

fun collectDepsWithToolchainRec ::
  "nat \<Rightarrow> env \<Rightarrow> heap \<Rightarrow> Toolchain option \<Rightarrow> Dep option list \<Rightarrow> string set
     \<Rightarrow> (error + Library list \<times> string set) option" where
  "collectDepsWithToolchainRec 0 e h toolchain deps visited = None"
| "collectDepsWithToolchainRec (Suc n) e h toolchain [] visited = Some (Inr ([], visited))"
| "collectDepsWithToolchainRec (Suc n) e h toolchain (dep # deps) visited =
     (case Dep_CcLibrary e dep toolchain of
        Inl err \<Rightarrow> Some (Inl err)
      | Inr l \<Rightarrow>
          (case lib_Out l of
             None \<Rightarrow> Some (Inl NilDereference)
           | Some out \<Rightarrow>
               (let libPath = Absolute (env_dirs e) (AsPath out) in
                if libPath \<notin> visited
                then (case collectDepsWithToolchainRec n e h toolchain
                             (map (load h) (lib_Deps l)) (insert libPath visited) of
                        None \<Rightarrow> None
                      | Some (Inl err) \<Rightarrow> Some (Inl err)
                      | Some (Inr (sub, visited1)) \<Rightarrow>
                          (case collectDepsWithToolchainRec (Suc n) e h toolchain deps visited1 of
                             None \<Rightarrow> None
                           | Some (Inl err) \<Rightarrow> Some (Inl err)
                           | Some (Inr (rest, visited2)) \<Rightarrow>
                               Some (Inr (l # sub @ rest, visited2))))
                else collectDepsWithToolchainRec (Suc n) e h toolchain deps visited)))"

definition collectDepsWithToolchain ::
  "nat \<Rightarrow> env \<Rightarrow> heap \<Rightarrow> Toolchain option \<Rightarrow> Dep option list \<Rightarrow> (error + Library list) option" where
  "collectDepsWithToolchain n e h toolchain deps =
     (case collectDepsWithToolchainRec n e h toolchain deps {} of
        None \<Rightarrow> None
      | Some (Inl err) \<Rightarrow> Some (Inl err)
      | Some (Inr (flatDeps, visited)) \<Rightarrow> Some (Inr flatDeps))"

subsection \<open>Reference notions for the collector\<close>

text \<open>
  The key of a resolved library, and the keys a traversal under one toolchain can
  meet: those of the references it starts from and of every \<open>Dep\<close> on the heap.
\<close>

definition libPath :: "env \<Rightarrow> Library \<Rightarrow> string option" where
  "libPath e l = map_option (\<lambda>out. Absolute (env_dirs e) (AsPath out)) (lib_Out l)"

definition depPath :: "env \<Rightarrow> Toolchain option \<Rightarrow> Dep option \<Rightarrow> string option" where
  "depPath e toolchain dep =
     (case Dep_CcLibrary e dep toolchain of
        Inl err \<Rightarrow> None
      | Inr l \<Rightarrow> libPath e l)"

definition depPaths :: "env \<Rightarrow> Toolchain option \<Rightarrow> Dep option list \<Rightarrow> string list" where
  "depPaths e toolchain deps =
     concat (map (\<lambda>dep. case depPath e toolchain dep of None \<Rightarrow> [] | Some p \<Rightarrow> [p]) deps)"

definition resolvedPaths :: "env \<Rightarrow> heap \<Rightarrow> Toolchain option \<Rightarrow> Dep option list \<Rightarrow> string set" where
  "resolvedPaths e h toolchain deps =
     set (depPaths e toolchain deps) \<union> set (depPaths e toolchain (map Some h))"

text \<open>
  Depth-first traversal with an explicit worklist, as the order of first discovery
  is usually defined: take the first reference of the worklist; if its key is new,
  list the library and put its own references in front of the remaining ones.
\<close>

function dfs_first_discovery ::
  "env \<Rightarrow> heap \<Rightarrow> Toolchain option \<Rightarrow> Dep option list \<Rightarrow> string set \<Rightarrow> error + Library list" where
  "dfs_first_discovery e h toolchain [] seen = Inr []"
| "dfs_first_discovery e h toolchain (dep # work) seen =
     (case Dep_CcLibrary e dep toolchain of
        Inl err \<Rightarrow> Inl err
      | Inr l \<Rightarrow>
          (case lib_Out l of
             None \<Rightarrow> Inl NilDereference
           | Some out \<Rightarrow>
               if Absolute (env_dirs e) (AsPath out) \<in> seen
               then dfs_first_discovery e h toolchain work seen
               else (case dfs_first_discovery e h toolchain (map (load h) (lib_Deps l) @ work)
                             (insert (Absolute (env_dirs e) (AsPath out)) seen) of
                       Inl err \<Rightarrow> Inl err
                     | Inr ls \<Rightarrow> Inr (l # ls))))"
  by pat_completeness auto

termination dfs_first_discovery
proof (relation "inv_image (less_than <*lex*> less_than)
         (\<lambda>(e, h, tc, work, seen). (card (resolvedPaths e h tc work - seen), length work))",
       goal_cases)
  case 1
  show ?case by (intro wf_inv_image wf_lex_prod wf_less_than)
next
  case (2 e h tc dep work seen l out)
  have "resolvedPaths e h tc work \<subseteq> resolvedPaths e h tc (dep # work)"
    by (auto simp: resolvedPaths_def depPaths_def)
  then have "card (resolvedPaths e h tc work - seen) \<le> card (resolvedPaths e h tc (dep # work) - seen)"
    by (intro card_mono) (auto simp: resolvedPaths_def)
  then show ?case by auto
next
  case (3 e h tc dep work seen l out)
  let ?p = "Absolute (env_dirs e) (AsPath out)"
  have in_U: "?p \<in> resolvedPaths e h tc (dep # work)"
    using 3 by (auto simp: resolvedPaths_def depPaths_def depPath_def libPath_def)
  have "set (depPaths e tc (map (load h) (lib_Deps l))) \<subseteq> set (depPaths e tc (map Some h))"
  proof
    fix p assume "p \<in> set (depPaths e tc (map (load h) (lib_Deps l)))"
    then obtain r where r: "depPath e tc (load h r) = Some p"
      by (auto simp: depPaths_def split: option.splits)
    then have "r < length h"
      by (cases "r < length h") (simp_all add: load_def depPath_def)
    with r have "Some (h ! r) \<in> set (map Some h)" "depPath e tc (Some (h ! r)) = Some p"
      by (simp_all add: load_def)
    then show "p \<in> set (depPaths e tc (map Some h))"
      unfolding depPaths_def by force
  qed
  then have "resolvedPaths e h tc (map (load h) (lib_Deps l) @ work) \<subseteq> resolvedPaths e h tc (dep # work)"
    by (auto simp: resolvedPaths_def depPaths_def)
  then have "resolvedPaths e h tc (map (load h) (lib_Deps l) @ work) - insert ?p seen
          \<subset> resolvedPaths e h tc (dep # work) - seen"
    using in_U 3 by auto
  then have "card (resolvedPaths e h tc (map (load h) (lib_Deps l) @ work) - insert ?p seen)
          < card (resolvedPaths e h tc (dep # work) - seen)"
    by (intro psubset_card_mono) (auto simp: resolvedPaths_def)
  then show ?case by auto
qed

text \<open>The keys of a list of libraries.\<close>

definition keys :: "env \<Rightarrow> Library list \<Rightarrow> string set" where
  "keys e libs = {p. \<exists>l\<in>set libs. libPath e l = Some p}"

text \<open>
  The libraries a traversal can meet: the resolutions of the references it starts
  from, and of the references of a library it has met.
\<close>

inductive reached :: "env \<Rightarrow> heap \<Rightarrow> Toolchain option \<Rightarrow> Dep option list \<Rightarrow> Library \<Rightarrow> bool"
  for e h tc ds where
    root: "dep \<in> set ds \<Longrightarrow> Dep_CcLibrary e dep tc = Inr l \<Longrightarrow> reached e h tc ds l"
  | step: "reached e h tc ds l' \<Longrightarrow> r \<in> set (lib_Deps l') \<Longrightarrow>
             Dep_CcLibrary e (load h r) tc = Inr l \<Longrightarrow> reached e h tc ds l"

section \<open>Command generation of the gcc toolchain\<close>

text \<open>\<open>joinQuoted\<close>: the loop that writes each path, quoted, and a space to the builder.\<close>

definition joinQuoted :: "dirs \<Rightarrow> Path list \<Rightarrow> string" where
  "joinQuoted d paths = foldl (\<lambda>b p. b @ fmt_q_path d p @ '' '') [] paths"

definition GccToolchain_ObjectFile ::
  "dirs \<Rightarrow> GccToolchain \<Rightarrow> OutPath \<Rightarrow> OutPath \<Rightarrow> string list \<Rightarrow> Path list \<Rightarrow> Path \<Rightarrow> string" where
  "GccToolchain_ObjectFile d gcc out depfile flags includes src =
     (let includesStr = foldl (\<lambda>b include. b @ ''-I'' @ fmt_q_path d include @ '' '') [] includes;
          includesStr = foldl (\<lambda>b include. b @ ''-isystem '' @ fmt_q_path d include @ '' '')
                          includesStr (gcc_Includes gcc)
      in fmt_q_path d (gcc_Cxx gcc) @ '' -pipe -c -o '' @ fmt_q_path d (AsPath out) @ '' -MD -MF ''
           @ fmt_q_path d (AsPath depfile) @ '' '' @ Join (gcc_CompilerFlags gcc @ flags) '' ''
           @ '' '' @ includesStr @ '' '' @ fmt_q_path d src)"

definition GccToolchain_StaticLibrary :: "dirs \<Rightarrow> GccToolchain \<Rightarrow> Path \<Rightarrow> Path list \<Rightarrow> string" where
  "GccToolchain_StaticLibrary d gcc out objs =
     ''rm '' @ fmt_q_path d out @ '' 2>/dev/null ; '' @ fmt_q_path d (gcc_Ar gcc) @ '' rcs ''
       @ fmt_q_path d out @ '' '' @ joinQuoted d objs"

definition GccToolchain_SharedLibrary :: "dirs \<Rightarrow> GccToolchain \<Rightarrow> Path \<Rightarrow> Path list \<Rightarrow> string" where
  "GccToolchain_SharedLibrary d gcc out objs =
     fmt_q_path d (gcc_Cxx gcc) @ '' -pipe -shared -o '' @ fmt_q_path d out @ '' ''
       @ joinQuoted d objs"

definition GccToolchain_Binary ::
  "dirs \<Rightarrow> GccToolchain \<Rightarrow> Path \<Rightarrow> Path list \<Rightarrow> Path list \<Rightarrow> Path list \<Rightarrow> string list
     \<Rightarrow> Path option \<Rightarrow> string" where
  "GccToolchain_Binary d gcc out objs alwaysLinkLibs libs flags script =
     (let flags = gcc_LinkerFlags gcc @ flags;
          flags = (case script of
                     Some s \<Rightarrow> flags @ [''-T'', fmt_q_path d s]
                   | None \<Rightarrow>
                       (case gcc_LinkerScript gcc of
                          Some s \<Rightarrow> flags @ [''-T'', fmt_q_path d s]
                        | None \<Rightarrow> flags))
      in fmt_q_path d (gcc_Cxx gcc) @ '' -pipe -o '' @ fmt_q_path d out @ '' '' @ joinQuoted d objs
           @ '' -Wl,-whole-archive '' @ joinQuoted d alwaysLinkLibs
           @ '' -Wl,-no-whole-archive '' @ joinQuoted d libs @ '' '' @ Join flags '' '')"

definition GccToolchain_BlobObject :: "dirs \<Rightarrow> GccToolchain \<Rightarrow> OutPath \<Rightarrow> Path \<Rightarrow> string" where
  "GccToolchain_BlobObject d gcc out src =
     fmt_q_path d (gcc_Ld gcc) @ '' -r -b binary -o '' @ fmt_q_path d (AsPath out) @ '' '' @ fmt_q_path d src"

text \<open>Method calls on a value of the interface \<open>Toolchain\<close>.\<close>

fun Toolchain_ObjectFile ::
  "dirs \<Rightarrow> Toolchain \<Rightarrow> OutPath \<Rightarrow> OutPath \<Rightarrow> string list \<Rightarrow> Path list \<Rightarrow> Path \<Rightarrow> string" where
  "Toolchain_ObjectFile d (Gcc gcc) out depfile flags includes src =
     GccToolchain_ObjectFile d gcc out depfile flags includes src"
| "Toolchain_ObjectFile d (Other t) out depfile flags includes src =
     other_ObjectFile t out depfile flags includes src"

fun Toolchain_StaticLibrary :: "dirs \<Rightarrow> Toolchain \<Rightarrow> Path \<Rightarrow> Path list \<Rightarrow> string" where
  "Toolchain_StaticLibrary d (Gcc gcc) out objs = GccToolchain_StaticLibrary d gcc out objs"
| "Toolchain_StaticLibrary d (Other t) out objs = other_StaticLibrary t out objs"

fun Toolchain_SharedLibrary :: "dirs \<Rightarrow> Toolchain \<Rightarrow> Path \<Rightarrow> Path list \<Rightarrow> string" where
  "Toolchain_SharedLibrary d (Gcc gcc) out objs = GccToolchain_SharedLibrary d gcc out objs"
| "Toolchain_SharedLibrary d (Other t) out objs = other_SharedLibrary t out objs"

fun Toolchain_Binary ::
  "dirs \<Rightarrow> Toolchain \<Rightarrow> Path \<Rightarrow> Path list \<Rightarrow> Path list \<Rightarrow> Path list \<Rightarrow> string list
     \<Rightarrow> Path option \<Rightarrow> string" where
  "Toolchain_Binary d (Gcc gcc) out objs alwaysLinkLibs libs flags script =
     GccToolchain_Binary d gcc out objs alwaysLinkLibs libs flags script"
| "Toolchain_Binary d (Other t) out objs alwaysLinkLibs libs flags script =
     other_Binary t out objs alwaysLinkLibs libs flags script"

fun Toolchain_BlobObject :: "dirs \<Rightarrow> Toolchain \<Rightarrow> OutPath \<Rightarrow> Path \<Rightarrow> string" where
  "Toolchain_BlobObject d (Gcc gcc) out src = GccToolchain_BlobObject d gcc out src"
| "Toolchain_BlobObject d (Other t) out src = other_BlobObject t out src"

section \<open>Reading a command line\<close>

text \<open>
  What a command string says is what a shell reads from it. The reader below reads a
  command line as a POSIX shell does, for the part of the shell language the
  generated commands are written in, and gives \<open>None\<close> for a line outside this part.

  Outside quotes a word is made of letters, digits and the characters
  \<open>- _ . / , + :\<close> (and \<open>=\<close> in a word that starts with \<open>-\<close>); a space ends a word, a
  semicolon ends a command, and \<open>>\<close> starts a redirection of the file descriptor
  whose number is the unquoted word of digits right before it, to the word that
  follows. Any other character outside quotes belongs to syntax that is not
  modelled.

  Between double quotes a backslash before a double quote, a backslash, a dollar
  sign or a backquote stands for that character, and a backslash before a newline
  is dropped with the newline; before any other character the backslash stands for
  itself (so \<open>\t\<close> between double quotes is a backslash and a \<open>t\<close>). A dollar
  sign before a name is replaced by the value of the variable of this name (\<open>vars\<close>;
  the value is empty for an unset variable); before \<open>{\<close>, \<open>(\<close>, a digit or a special
  parameter it starts an expansion that is not modelled, and so does a backquote;
  before anything else it stands for itself. Every other character stands for
  itself, control characters included.
\<close>

datatype token = Word string | Semi | Redirect string

text \<open>
  The word being read, if any, and whether all of it was read outside quotes.
\<close>

datatype pending = NoWord | InWord string bool

fun word_text :: "pending \<Rightarrow> string" where
  "word_text NoWord = []"
| "word_text (InWord w u) = w"

fun unquoted :: "pending \<Rightarrow> bool" where
  "unquoted NoWord = True"
| "unquoted (InWord w u) = u"

fun flush :: "pending \<Rightarrow> token list" where
  "flush NoWord = []"
| "flush (InWord w u) = [Word w]"

definition put :: "pending \<Rightarrow> string \<Rightarrow> bool \<Rightarrow> pending" where
  "put p s quoted = InWord (word_text p @ s) (unquoted p \<and> \<not> quoted)"

definition digit :: "char \<Rightarrow> bool" where
  "digit c = (CHR ''0'' \<le> c \<and> c \<le> CHR ''9'')"

definition letter :: "char \<Rightarrow> bool" where
  "letter c = ((CHR ''a'' \<le> c \<and> c \<le> CHR ''z'') \<or> (CHR ''A'' \<le> c \<and> c \<le> CHR ''Z''))"

definition word_char :: "char \<Rightarrow> bool" where
  "word_char c = (letter c \<or> digit c \<or> c \<in> set ''-_./,+:'')"

definition name_start :: "char \<Rightarrow> bool" where
  "name_start c = (letter c \<or> c = CHR ''_'')"

definition name_char :: "char \<Rightarrow> bool" where
  "name_char c = (letter c \<or> digit c \<or> c = CHR ''_'')"

fun redirect :: "pending \<Rightarrow> token list" where
  "redirect NoWord = [Redirect []]"
| "redirect (InWord w u) =
     (if u \<and> w \<noteq> [] \<and> list_all digit w then [Redirect w] else [Word w, Redirect []])"

function shell_lex :: "(string \<Rightarrow> string) \<Rightarrow> bool \<Rightarrow> string \<Rightarrow> pending \<Rightarrow> token list option" where
  "shell_lex vars False [] p = Some (flush p)"
| "shell_lex vars True [] p = None"
| "shell_lex vars False (c # cs) p =
     (if c = CHR '' '' then map_option (\<lambda>ts. flush p @ ts) (shell_lex vars False cs NoWord)
      else if c = CHR '';''
      then map_option (\<lambda>ts. flush p @ Semi # ts) (shell_lex vars False cs NoWord)
      else if c = CHR ''>''
      then map_option (\<lambda>ts. redirect p @ ts) (shell_lex vars False cs NoWord)
      else if c = dquote then shell_lex vars True cs (InWord (word_text p) False)
      else if word_char c \<or> (c = CHR ''='' \<and> take 1 (word_text p) = ''-'')
      then shell_lex vars False cs (put p [c] False)
      else None)"
| "shell_lex vars True [c] p = (if c = dquote then shell_lex vars False [] p else None)"
| "shell_lex vars True (c # c' # cs) p =
     (if c = dquote then shell_lex vars False (c' # cs) p
      else if c = CHR 0x60 then None
      else if c = CHR ''$''
      then (if name_start c'
            then shell_lex vars True (dropWhile name_char (c' # cs))
                   (put p (vars (takeWhile name_char (c' # cs))) True)
            else if c' \<in> set ''{(0123456789@*#?-$!'' then None
            else shell_lex vars True (c' # cs) (put p [c] True))
      else if c = backslash
      then (if c' = dquote \<or> c' = backslash \<or> c' = CHR ''$'' \<or> c' = CHR 0x60
            then shell_lex vars True cs (put p [c'] True)
            else if c' = CHR 0x0A then shell_lex vars True cs p
            else shell_lex vars True (c' # cs) (put p [c] True))
      else shell_lex vars True (c' # cs) (put p [c] True))"
  by pat_completeness auto
termination
  by (relation "measure (\<lambda>(vars, quoted, s, p). length s)")
     (auto simp: less_Suc_eq_le le_SucI length_dropWhile_le)

definition shell_tokens :: "(string \<Rightarrow> string) \<Rightarrow> string \<Rightarrow> token list option" where
  "shell_tokens vars cmd = shell_lex vars False cmd NoWord"

text \<open>
  A simple command: its words, and its redirections as pairs of a file descriptor
  (empty when none is written) and a target. The commands of a line are what its
  semicolons separate; only the last of them may be empty, and is then none.
\<close>

record command =
  argv :: "string list"
  redirects :: "(string \<times> string) list"

definition blank :: "command \<Rightarrow> bool" where
  "blank c = (argv c = [] \<and> redirects c = [])"

fun shell_parse :: "token list \<Rightarrow> command list option" where
  "shell_parse [] = Some [\<lparr>argv = [], redirects = []\<rparr>]"
| "shell_parse (Semi # ts) =
     map_option (\<lambda>cs. \<lparr>argv = [], redirects = []\<rparr> # cs) (shell_parse ts)"
| "shell_parse (Word w # ts) =
     (case shell_parse ts of
        Some (c # cs) \<Rightarrow> Some (c\<lparr>argv := w # argv c\<rparr> # cs)
      | _ \<Rightarrow> None)"
| "shell_parse (Redirect n # Word target # ts) =
     (case shell_parse ts of
        Some (c # cs) \<Rightarrow> Some (c\<lparr>redirects := (n, target) # redirects c\<rparr> # cs)
      | _ \<Rightarrow> None)"
| "shell_parse (Redirect n # ts) = None"

definition shell_commands :: "(string \<Rightarrow> string) \<Rightarrow> string \<Rightarrow> command list option" where
  "shell_commands vars cmd =
     (case Option.bind (shell_tokens vars cmd) shell_parse of
        None \<Rightarrow> None
      | Some cs \<Rightarrow>
          if list_ex blank (butlast cs) then None else Some (filter (\<lambda>c. \<not> blank c) cs))"

text \<open>
  The strings that \<open>%q\<close> writes and the shell reads alike: those of printable ASCII
  characters other than the dollar sign and the backquote. On them \<open>%q\<close> writes each
  character as \<open>escape_char\<close> does.
\<close>

definition printable_ascii :: "char \<Rightarrow> bool" where
  "printable_ascii c = (0x20 \<le> (of_char c :: nat) \<and> (of_char c :: nat) \<le> 0x7E)"

definition plain_char :: "char \<Rightarrow> bool" where
  "plain_char c = (printable_ascii c \<and> c \<noteq> CHR ''$'' \<and> c \<noteq> CHR 0x60)"

definition plain :: "string \<Rightarrow> bool" where
  "plain s = list_all plain_char s"

definition escape_char :: "char \<Rightarrow> string" where
  "escape_char c = (if c = dquote \<or> c = backslash then [backslash, c] else [c])"

section \<open>The context of the build engine\<close>

text \<open>
  Modelled from the spec: the engine's context (\<open>core.Context\<close>), of which the
  sources hold only the calls. \<open>AddBuildStep\<close> registers a build step; \<open>Built\<close> asks
  whether an absolute output path has already been built, and registers it on the
  first question; \<open>WithTrace\<close> runs a function under a label for diagnostics.
\<close>

record BuildStep =
  step_Out :: OutPath
  step_Depfile :: "OutPath option"
  step_In :: "Path option"
  step_Ins :: "Path list"
  step_Cmd :: string
  step_Descr :: string

record Context =
  ctx_built :: "string set"
  ctx_steps :: "BuildStep list"

definition AddBuildStep :: "Context \<Rightarrow> BuildStep \<Rightarrow> Context" where
  "AddBuildStep ctx step = ctx\<lparr>ctx_steps := ctx_steps ctx @ [step]\<rparr>"

definition Built :: "Context \<Rightarrow> string \<Rightarrow> bool \<times> Context" where
  "Built ctx p = (p \<in> ctx_built ctx, ctx\<lparr>ctx_built := insert p (ctx_built ctx)\<rparr>)"

definition WithTrace :: "Context \<Rightarrow> string \<Rightarrow> (Context \<Rightarrow> 'r) \<Rightarrow> 'r" where
  "WithTrace ctx label f = f ctx"

text \<open>
  A context extends another when it has all its built paths and its steps begin
  with the steps of the other: what is registered stays registered.
\<close>

definition extends :: "Context \<Rightarrow> Context \<Rightarrow> bool" where
  "extends ctx ctx' =
     (ctx_built ctx \<subseteq> ctx_built ctx'
      \<and> take (length (ctx_steps ctx)) (ctx_steps ctx') = ctx_steps ctx)"

section \<open>Build units\<close>

subsection \<open>Object files and blob objects\<close>

record ObjectFile =
  obj_Src :: Path
  obj_Includes :: "Path list"
  obj_Flags :: "string list"
  obj_Toolchain :: "Toolchain option"

definition ObjectFile_out :: "env \<Rightarrow> ObjectFile \<Rightarrow> error + OutPath" where
  "ObjectFile_out e obj =
     bindE (toolchainOrDefault e (obj_Toolchain obj)) (\<lambda>toolchain.
     Inr (WithExt (AsPath (WithPrefix (obj_Src obj) (Name toolchain @ ''/''))) ''o''))"

definition ObjectFile_Build :: "env \<Rightarrow> ObjectFile \<Rightarrow> Context \<Rightarrow> error + Context" where
  "ObjectFile_Build e obj ctx =
     bindE (toolchainOrDefault e (obj_Toolchain obj)) (\<lambda>toolchain.
     bindE (ObjectFile_out e obj) (\<lambda>out.
     let depfile = WithExt (AsPath out) ''d'';
         cmd = Toolchain_ObjectFile (env_dirs e) toolchain out depfile (obj_Flags obj)
                 (obj_Includes obj) (obj_Src obj)
     in WithTrace ctx (''obj:'' @ Relative (AsPath out)) (\<lambda>ctx.
          Inr (AddBuildStep ctx
                 \<lparr>step_Out = out,
                  step_Depfile = Some depfile,
                  step_In = Some (obj_Src obj),
                  step_Ins = [],
                  step_Cmd = cmd,
                  step_Descr = ''CC (toolchain: '' @ Name toolchain @ '') ''
                                 @ Relative (AsPath out)\<rparr>))))"

record BlobObject =
  blob_In :: Path
  blob_Toolchain :: "Toolchain option"

definition BlobObject_out :: "env \<Rightarrow> BlobObject \<Rightarrow> error + OutPath" where
  "BlobObject_out e blob =
     bindE (toolchainOrDefault e (blob_Toolchain blob)) (\<lambda>toolchain.
     Inr (WithExt (AsPath (WithPrefix (blob_In blob) (Name toolchain @ ''/''))) ''blob.o''))"

text \<open>
  \<open>BlobObject.Build\<close>. The command is asked of \<open>blob.Toolchain\<close>, the field, and not
  of the local \<open>toolchain\<close>: on a nil field the method call panics.
\<close>

definition BlobObject_Build :: "env \<Rightarrow> BlobObject \<Rightarrow> Context \<Rightarrow> error + Context" where
  "BlobObject_Build e blob ctx =
     bindE (BlobObject_out e blob) (\<lambda>out.
     WithTrace ctx (''blob:'' @ Relative (AsPath out)) (\<lambda>ctx.
       bindE (toolchainOrDefault e (blob_Toolchain blob)) (\<lambda>toolchain.
       bindE (case blob_Toolchain blob of
                None \<Rightarrow> Inl NilDereference
              | Some t \<Rightarrow> Inr (Toolchain_BlobObject (env_dirs e) t out (blob_In blob))) (\<lambda>cmd.
       Inr (AddBuildStep ctx
              \<lparr>step_Out = out,
               step_Depfile = None,
               step_In = Some (blob_In blob),
               step_Ins = [],
               step_Cmd = cmd,
               step_Descr = ''BLOB (toolchain: '' @ Name toolchain @ '') ''
                              @ Relative (AsPath out)\<rparr>)))))"

subsection \<open>Compiling sources\<close>

fun compileSources_loop ::
  "env \<Rightarrow> Path list \<Rightarrow> string list \<Rightarrow> Path list \<Rightarrow> Toolchain option \<Rightarrow> Context \<Rightarrow> Path list
     \<Rightarrow> error + Path list \<times> Context" where
  "compileSources_loop e [] flags includes toolchain ctx objs = Inr (objs, ctx)"
| "compileSources_loop e (src # srcs) flags includes toolchain ctx objs =
     (let obj = \<lparr>obj_Src = src, obj_Includes = includes, obj_Flags = flags,
                 obj_Toolchain = toolchain\<rparr>
      in bindE (ObjectFile_Build e obj ctx) (\<lambda>ctx.
         bindE (ObjectFile_out e obj) (\<lambda>out.
         compileSources_loop e srcs flags includes toolchain ctx (objs @ [AsPath out]))))"

definition compileSources ::
  "env \<Rightarrow> Context \<Rightarrow> Path list \<Rightarrow> string list \<Rightarrow> Library list \<Rightarrow> Toolchain option
     \<Rightarrow> error + Path list \<times> Context" where
  "compileSources e ctx srcs flags deps toolchain =
     (let includes = foldl (\<lambda>includes dep. includes @ lib_Includes dep) [SourcePath []] deps
      in compileSources_loop e srcs flags includes toolchain ctx [])"

subsection \<open>Libraries\<close>

text \<open>A loop that runs a build for each element and stops at the first error.\<close>

fun forEach ::
  "'a list \<Rightarrow> ('a \<Rightarrow> Context \<Rightarrow> (error + Context) option) \<Rightarrow> Context \<Rightarrow> (error + Context) option" where
  "forEach [] f ctx = Some (Inr ctx)"
| "forEach (x # xs) f ctx = bindR (f x ctx) (forEach xs f)"

text \<open>The loop of \<open>Library.build\<close> over \<open>lib.Blobs\<close>.\<close>

fun blobs_loop ::
  "env \<Rightarrow> Path list \<Rightarrow> Toolchain \<Rightarrow> Context \<Rightarrow> Path list \<Rightarrow> error + Path list \<times> Context" where
  "blobs_loop e [] toolchain ctx objs = Inr (objs, ctx)"
| "blobs_loop e (blob # blobs) toolchain ctx objs =
     (let blobObject = \<lparr>blob_In = blob, blob_Toolchain = Some toolchain\<rparr>
      in bindE (BlobObject_Build e blobObject ctx) (\<lambda>ctx.
         bindE (BlobObject_out e blobObject) (\<lambda>out.
         blobs_loop e blobs toolchain ctx (objs @ [AsPath out]))))"

text \<open>
  The part of \<open>Library.build\<close> after the dependencies are built: the objects of the
  sources, the given objects, the blobs, and the step that archives or links them.
\<close>

definition Library_build_own ::
  "env \<Rightarrow> Library \<Rightarrow> OutPath \<Rightarrow> Toolchain \<Rightarrow> Library list \<Rightarrow> Context \<Rightarrow> error + Context" where
  "Library_build_own e l out toolchain deps ctx =
     bindE (compileSources e ctx (lib_Srcs l) (lib_CompilerFlags l) deps (Some toolchain))
       (\<lambda>(objs, ctx).
     let objs = objs @ lib_Objs l in
     bindE (blobs_loop e (lib_Blobs l) toolchain ctx objs) (\<lambda>(objs, ctx).
     let (cmd, descr) =
           (if lib_Shared l
            then (Toolchain_SharedLibrary (env_dirs e) toolchain (AsPath out) objs,
                  ''LD (toolchain: '' @ Name toolchain @ '') '' @ Relative (AsPath out))
            else (Toolchain_StaticLibrary (env_dirs e) toolchain (AsPath out) objs,
                  ''AR (toolchain: '' @ Name toolchain @ '') '' @ Relative (AsPath out)))
     in Inr (AddBuildStep ctx
               \<lparr>step_Out = out,
                step_Depfile = None,
                step_In = None,
                step_Ins = objs,
                step_Cmd = cmd,
                step_Descr = descr\<rparr>)))"

text \<open>
  \<open>Library.build\<close>, with a bound on the depth of nested builds. The loop over the
  closure calls \<open>d.Build(ctx)\<close>, that is \<open>Library.Build\<close>: the trace label
  \<open>"lib:" + d.Out.Relative()\<close> is evaluated first and panics on a nil \<open>Out\<close>.
\<close>

fun Library_build :: "nat \<Rightarrow> env \<Rightarrow> heap \<Rightarrow> Library \<Rightarrow> Context \<Rightarrow> (error + Context) option" where
  "Library_build 0 e h l ctx = None"
| "Library_build (Suc n) e h l ctx =
     (case lib_Out l of
        None \<Rightarrow> Some (Inl (Fatal ''Out field is required for cc.Library''))
      | Some out \<Rightarrow>
          (case Built ctx (Absolute (env_dirs e) (AsPath out)) of
             (True, ctx) \<Rightarrow> Some (Inr ctx)
           | (False, ctx) \<Rightarrow>
               bindR (Some (toolchainOrDefault e (lib_Toolchain l))) (\<lambda>toolchain.
               bindR (collectDepsWithToolchain n e h (Some toolchain)
                        (map (load h) (StdDeps toolchain) @ [Some (DepLibrary l)])) (\<lambda>deps.
               bindR (forEach deps
                        (\<lambda>d ctx. case lib_Out d of
                                    None \<Rightarrow> Some (Inl NilDereference)
                                  | Some dout \<Rightarrow>
                                      WithTrace ctx (''lib:'' @ Relative (AsPath dout))
                                        (Library_build n e h d))
                        ctx) (\<lambda>ctx.
               Some (Library_build_own e l out toolchain deps ctx))))))"

definition Library_Build :: "nat \<Rightarrow> env \<Rightarrow> heap \<Rightarrow> Library \<Rightarrow> Context \<Rightarrow> (error + Context) option" where
  "Library_Build n e h l ctx =
     (case lib_Out l of
        None \<Rightarrow> Some (Inl NilDereference)
      | Some out \<Rightarrow> WithTrace ctx (''lib:'' @ Relative (AsPath out)) (Library_build n e h l))"

definition multipleToolchainLibrary_Build ::
  "nat \<Rightarrow> env \<Rightarrow> heap \<Rightarrow> multipleToolchainLibrary \<Rightarrow> Context \<Rightarrow> (error + Context) option" where
  "multipleToolchainLibrary_Build n e h mtl ctx =
     bindR (Some (DefaultToolchain e)) (\<lambda>dflt.
     bindR (Some (multipleToolchainLibrary_CcLibrary e mtl (Some dflt))) (\<lambda>l.
     Library_Build n e h l ctx))"

subsection \<open>Binaries\<close>

record Binary =
  bin_Out :: "OutPath option"
  bin_Srcs :: "Path list"
  bin_CompilerFlags :: "string list"
  bin_LinkerFlags :: "string list"
  bin_Deps :: "DepRef list"
  bin_Script :: "Path option"
  bin_Toolchain :: "Toolchain option"

text \<open>
  The loop of \<open>Binary.build\<close> over the closure: the inputs of the link step, the
  always-link libraries and the other libraries. Every library of a closure has an
  \<open>Out\<close>; a nil one would reach the link command as a nil path, outside this model.
\<close>

fun partition_loop ::
  "Library list \<Rightarrow> Path list \<Rightarrow> Path list \<Rightarrow> Path list \<Rightarrow> Path list \<times> Path list \<times> Path list" where
  "partition_loop [] ins alwaysLinkLibs otherLibs = (ins, alwaysLinkLibs, otherLibs)"
| "partition_loop (dep # deps) ins alwaysLinkLibs otherLibs =
     (case lib_Out dep of
        None \<Rightarrow> partition_loop deps ins alwaysLinkLibs otherLibs
      | Some out \<Rightarrow>
          if lib_AlwaysLink dep
          then partition_loop deps (ins @ [AsPath out]) (alwaysLinkLibs @ [AsPath out]) otherLibs
          else partition_loop deps (ins @ [AsPath out]) alwaysLinkLibs (otherLibs @ [AsPath out]))"

definition Binary_build :: "nat \<Rightarrow> env \<Rightarrow> heap \<Rightarrow> Binary \<Rightarrow> Context \<Rightarrow> (error + Context) option" where
  "Binary_build n e h bin ctx =
     bindR (Some (toolchainOrDefault e (bin_Toolchain bin))) (\<lambda>toolchain.
     bindR (collectDepsWithToolchain n e h (Some toolchain)
              (map (load h) (bin_Deps bin) @ map (load h) (StdDeps toolchain))) (\<lambda>deps.
     bindR (forEach deps (Library_Build n e h) ctx) (\<lambda>ctx.
     bindR (Some (compileSources e ctx (bin_Srcs bin) (bin_CompilerFlags bin) deps (Some toolchain)))
       (\<lambda>(objs, ctx).
     let (ins, alwaysLinkLibs, otherLibs) = partition_loop deps objs [] [];
         ins = (case bin_Script bin of
                  Some s \<Rightarrow> ins @ [s]
                | None \<Rightarrow> (case Script toolchain of Some s \<Rightarrow> ins @ [s] | None \<Rightarrow> ins))
     in (case bin_Out bin of
           None \<Rightarrow> Some (Inl NilDereference)
         | Some out \<Rightarrow>
             Some (Inr (AddBuildStep ctx
                          \<lparr>step_Out = out,
                           step_Depfile = None,
                           step_In = None,
                           step_Ins = ins,
                           step_Cmd = Toolchain_Binary (env_dirs e) toolchain (AsPath out) objs
                                        alwaysLinkLibs otherLibs (bin_LinkerFlags bin) (bin_Script bin),
                           step_Descr = ''LD (toolchain: '' @ Name toolchain @ '') ''
                                          @ Relative (AsPath out)\<rparr>)))))))"

definition Binary_Build :: "nat \<Rightarrow> env \<Rightarrow> heap \<Rightarrow> Binary \<Rightarrow> Context \<Rightarrow> (error + Context) option" where
  "Binary_Build n e h bin ctx =
     (case bin_Out bin of
        None \<Rightarrow> Some (Inl (Fatal ''Out field is required for cc.Binary''))
      | Some out \<Rightarrow> WithTrace ctx (''bin:'' @ Relative (AsPath out)) (Binary_build n e h bin))"

text \<open>
  The output paths of a list of libraries, and the object path \<open>ObjectFile.out\<close>
  gives a source under a toolchain.
\<close>

definition libOuts :: "Library list \<Rightarrow> Path list" where
  "libOuts libs = concat (map (\<lambda>l. case lib_Out l of None \<Rightarrow> [] | Some out \<Rightarrow> [AsPath out]) libs)"

definition objectPath :: "Toolchain \<Rightarrow> Path \<Rightarrow> Path" where
  "objectPath tc src = AsPath (WithExt (AsPath (WithPrefix src (Name tc @ ''/''))) ''o'')"

section \<open>Values for concrete evaluation\<close>

text \<open>
  \<open>NativeGcc\<close>, the toolchain the package registers, and the environment after it.
  The examples are written in ASCII; the table of their environment holds no rune.
\<close>

definition NativeGcc :: GccToolchain where
  "NativeGcc =
     \<lparr>gcc_Ar = GlobalPath ''ar'',
      gcc_As = GlobalPath ''as'',
      gcc_Cc = GlobalPath ''gcc'',
      gcc_Cpp = GlobalPath ''gcc -E'',
      gcc_Cxx = GlobalPath ''g++'',
      gcc_Objcopy = GlobalPath ''objcopy'',
      gcc_Ld = GlobalPath ''ld'',
      gcc_Includes = [],
      gcc_Deps = [],
      gcc_LinkerScript = None,
      gcc_CompilerFlags = [''-std=c++14'', ''-O3'', ''-fdiagnostics-color=always''],
      gcc_LinkerFlags = [''-fdiagnostics-color=always''],
      gcc_ToolchainName = ''native-gcc'',
      gcc_ArchName = ''x86_64'',
      gcc_TargetName = [],
      gcc_CompatibleWith = []\<rparr>"

definition env0 :: env where
  "env0 =
     \<lparr>toolchains = [(''native-gcc'', Gcc NativeGcc)],
      defaultToolchainFlag = ''native-gcc'',
      env_dirs = \<lparr>sourceDir = ''/src'', buildDir = ''/out'', isPrintTable = (\<lambda>r. False)\<rparr>\<rparr>"

text \<open>The context of a process that has built nothing.\<close>

definition ctx0 :: Context where
  "ctx0 = \<lparr>ctx_built = {}, ctx_steps = []\<rparr>"

text \<open>
  A test toolchain that accepts libraries of the native one, an \<open>arm\<close> toolchain with
  an empty \<open>CompatibleWith\<close>, and a toolchain without an \<open>Accepts\<close> method.
\<close>

definition TestGcc :: GccToolchain where
  "TestGcc = NativeGcc\<lparr>gcc_ToolchainName := ''test'', gcc_CompatibleWith := [''native-gcc'']\<rparr>"

definition ArmGcc :: GccToolchain where
  "ArmGcc = NativeGcc\<lparr>gcc_ToolchainName := ''arm'', gcc_ArchName := ''aarch64''\<rparr>"

definition PlainToolchain :: OtherToolchain where
  "PlainToolchain =
     \<lparr>other_Name = ''plain'',
      other_ObjectFile = (\<lambda>out depfile flags includes src. []),
      other_StaticLibrary = (\<lambda>out objs. []),
      other_SharedLibrary = (\<lambda>out objs. []),
      other_Binary = (\<lambda>out objs alwaysLinkLibs libs flags script. []),
      other_BlobObject = (\<lambda>out src. []),
      other_RawBinary = (\<lambda>out src. []),
      other_StdDeps = [],
      other_Script = None\<rparr>"

definition emptyLibrary :: Library where
  "emptyLibrary =
     \<lparr>lib_Out = None, lib_Srcs = [], lib_Blobs = [], lib_Objs = [], lib_Includes = [],
      lib_CompilerFlags = [], lib_Deps = [], lib_Shared = False, lib_AlwaysLink = False,
      lib_Toolchain = None\<rparr>"

definition fooLibrary :: Library where
  "fooLibrary = emptyLibrary\<lparr>lib_Out := Some (OutPath ''foo.a'')\<rparr>"

text \<open>
  A diamond: \<open>a\<close> depends on \<open>b\<close> and \<open>c\<close>, which both depend on \<open>d\<close>. A cycle: \<open>x\<close>
  depends on \<open>y\<close> and \<open>y\<close> on \<open>x\<close>.
\<close>

definition libA :: Library where
  "libA = emptyLibrary\<lparr>lib_Out := Some (OutPath ''a.a''), lib_Deps := [1, 2]\<rparr>"

definition libB :: Library where
  "libB = emptyLibrary\<lparr>lib_Out := Some (OutPath ''b.a''), lib_Deps := [3]\<rparr>"

definition libC :: Library where
  "libC = emptyLibrary\<lparr>lib_Out := Some (OutPath ''c.a''), lib_Deps := [3], lib_AlwaysLink := True\<rparr>"

definition libD :: Library where
  "libD = emptyLibrary\<lparr>lib_Out := Some (OutPath ''d.a'')\<rparr>"

definition diamond :: heap where
  "diamond = [DepLibrary libA, DepLibrary libB, DepLibrary libC, DepLibrary libD]"

definition libX :: Library where
  "libX = emptyLibrary\<lparr>lib_Out := Some (OutPath ''x.a''), lib_Deps := [1]\<rparr>"

definition libY :: Library where
  "libY = emptyLibrary\<lparr>lib_Out := Some (OutPath ''y.a''), lib_Deps := [0]\<rparr>"

definition cycle :: heap where
  "cycle = [DepLibrary libX, DepLibrary libY]"

text \<open>The step that archives \<open>fooLibrary\<close> under the native toolchain.\<close>

definition fooStep :: BuildStep where
  "fooStep =
     \<lparr>step_Out = OutPath ''foo.a'', step_Depfile = None, step_In = None, step_Ins = [],
      step_Cmd = GccToolchain_StaticLibrary (env_dirs env0) NativeGcc (AsPath (OutPath ''foo.a'')) [],
      step_Descr = ''AR (toolchain: native-gcc) foo.a''\<rparr>"

text \<open>
  A binary over two libraries without dependencies, one of them always-link, and the
  archive step of a static library without sources under the native toolchain.
\<close>

definition libW :: Library where
  "libW = emptyLibrary\<lparr>lib_Out := Some (OutPath ''w.a''), lib_AlwaysLink := True\<rparr>"

definition appHeap :: heap where
  "appHeap = [DepLibrary libD, DepLibrary libW]"

definition appBinary :: Binary where
  "appBinary =
     \<lparr>bin_Out = Some (OutPath ''app''), bin_Srcs = [], bin_CompilerFlags = [], bin_LinkerFlags = [],
      bin_Deps = [0, 1], bin_Script = None, bin_Toolchain = None\<rparr>"

definition archiveStep :: "Library \<Rightarrow> OutPath \<Rightarrow> BuildStep" where
  "archiveStep l out =
     \<lparr>step_Out = out, step_Depfile = None, step_In = None, step_Ins = lib_Objs l,
      step_Cmd = GccToolchain_StaticLibrary (env_dirs env0) NativeGcc (AsPath out) (lib_Objs l),
      step_Descr = ''AR (toolchain: native-gcc) '' @ Relative (AsPath out)\<rparr>"

text \<open>
  A shell in which no variable is set, an output path with a tab and an output path
  with a dollar sign.
\<close>

definition unset :: "string \<Rightarrow> string" where
  "unset name = []"

definition tabPath :: Path where
  "tabPath = AsPath (OutPath (''a'' @ [CHR 0x09] @ ''b.a''))"

definition dollarPath :: Path where
  "dollarPath = AsPath (OutPath ''$x.a'')"

section \<open>Resolution of dependency references\<close>

lemma toolchainOrDefault_Some [simp]: "toolchainOrDefault e (Some t) = Inr t"
  by (simp add: toolchainOrDefault_def)

lemma toolchainOrDefault_None [simp]: "toolchainOrDefault e None = DefaultToolchain e"
  by (simp add: toolchainOrDefault_def)

lemma DefaultToolchain_env0 [simp]: "DefaultToolchain env0 = Inr (Gcc NativeGcc)"
  by (simp add: DefaultToolchain_def env0_def)

lemma env_dirs_env0 [simp]:
  "env_dirs env0 = \<lparr>sourceDir = ''/src'', buildDir = ''/out'', isPrintTable = (\<lambda>r. False)\<rparr>"
  by (simp add: env0_def)

lemma RegisterToolchain_NativeGcc:
  "RegisterToolchain (env0\<lparr>toolchains := []\<rparr>) (Gcc NativeGcc) = Inr (Gcc NativeGcc, env0)"
  by (simp add: RegisterToolchain_def env0_def NativeGcc_def)

lemma RegisterToolchain_twice:
  "RegisterToolchain env0 (Gcc NativeGcc)
     = Inl (Fatal ''A toolchain with name native-gcc has already been registered'')"
  by (simp add: RegisterToolchain_def env0_def NativeGcc_def)

lemma accepts_loop_set: "accepts_loop cws n = (n \<in> set cws)"
  by (induction cws) auto

text \<open>
  C2. A library pinned to toolchain \<open>X\<close> (with an output path) resolves under the
  requesting toolchain \<open>Y\<close> to itself exactly when the names of \<open>X\<close> and \<open>Y\<close> are equal
  or \<open>Y\<close> has an \<open>Accepts\<close> method that admits \<open>X\<close>; otherwise the resolution is the
  fatal error of \<open>core.Fatal\<close>. Acceptance is not symmetric, and a toolchain without
  an \<open>Accepts\<close> method accepts exactly the toolchains of its own name.
\<close>

theorem Library_CcLibrary_gate:
  assumes "lib_Toolchain l = Some X" and "lib_Out l = Some out"
  shows "Library_CcLibrary e l (Some Y) =
           (if Name X = Name Y \<or> (case Y of Gcc gcc \<Rightarrow> GccToolchain_Accepts gcc X | Other t \<Rightarrow> False)
            then Inr l
            else Inl (Fatal (''Library '' @ Relative (AsPath out) @ '' does not support toolchain ''
                       @ Name Y)))
         \<and> (\<exists>A B. ToolchainAccepts A B \<and> \<not> ToolchainAccepts B A)
         \<and> (ToolchainAccepts (Other t) X = (other_Name t = Name X))"
proof -
  have 1: "ToolchainAccepts (Gcc TestGcc) (Gcc NativeGcc)"
    by (simp add: TestGcc_def NativeGcc_def GccToolchain_Accepts_def)
  have 2: "\<not> ToolchainAccepts (Gcc NativeGcc) (Gcc TestGcc)"
    by (simp add: TestGcc_def NativeGcc_def GccToolchain_Accepts_def)
  have 3: "\<exists>A B. ToolchainAccepts A B \<and> \<not> ToolchainAccepts B A"
    using 1 2 by blast
  have 4: "ToolchainAccepts (Other t) X = (other_Name t = Name X)"
    by simp
  have 5: "ToolchainAccepts Y X =
             (Name X = Name Y \<or> (case Y of Gcc gcc \<Rightarrow> GccToolchain_Accepts gcc X | Other t \<Rightarrow> False))"
    by (auto split: Toolchain.splits)
  have 6: "Library_CcLibrary e l (Some Y) =
             (if ToolchainAccepts Y X then Inr l
              else Inl (Fatal (''Library '' @ Relative (AsPath out) @ '' does not support toolchain ''
                         @ Name Y)))"
    using assms by (simp add: Library_CcLibrary_def del: ToolchainAccepts.simps)
  show ?thesis
    unfolding 6 5 using 3 4 by blast
qed

theorem Library_CcLibrary_gate_witness:
  "Library_CcLibrary env0 (fooLibrary\<lparr>lib_Toolchain := Some (Gcc NativeGcc)\<rparr>) (Some (Gcc TestGcc))
     = Inr (fooLibrary\<lparr>lib_Toolchain := Some (Gcc NativeGcc)\<rparr>)
   \<and> Library_CcLibrary env0 (fooLibrary\<lparr>lib_Toolchain := Some (Gcc TestGcc)\<rparr>) (Some (Gcc NativeGcc))
     = Inl (Fatal ''Library foo.a does not support toolchain native-gcc'')
   \<and> Library_CcLibrary env0 (fooLibrary\<lparr>lib_Toolchain := Some (Gcc NativeGcc)\<rparr>)
       (Some (Other PlainToolchain))
     = Inl (Fatal ''Library foo.a does not support toolchain plain'')"
  using Library_CcLibrary_gate [of "fooLibrary\<lparr>lib_Toolchain := Some (Gcc NativeGcc)\<rparr>" "Gcc NativeGcc"
          "OutPath ''foo.a''" env0 "Gcc TestGcc"]
        Library_CcLibrary_gate [of "fooLibrary\<lparr>lib_Toolchain := Some (Gcc TestGcc)\<rparr>" "Gcc TestGcc"
          "OutPath ''foo.a''" env0 "Gcc NativeGcc"]
        Library_CcLibrary_gate [of "fooLibrary\<lparr>lib_Toolchain := Some (Gcc NativeGcc)\<rparr>" "Gcc NativeGcc"
          "OutPath ''foo.a''" env0 "Other PlainToolchain"]
  by (simp add: fooLibrary_def emptyLibrary_def TestGcc_def NativeGcc_def GccToolchain_Accepts_def
        PlainToolchain_def)

text \<open>
  C9. When the compatibility check passes, \<open>Library.CcLibrary\<close> returns the library
  itself, whatever the requesting toolchain is: no field changes, the \<open>Toolchain\<close>
  field included, so a later build of the result resolves the library's own
  toolchain (or the default when the field is nil).
\<close>

theorem Library_CcLibrary_returns_itself:
  assumes "toolchainOrDefault e T = Inr Y"
      and "toolchainOrDefault e (lib_Toolchain l) = Inr X"
      and "ToolchainAccepts Y X"
  shows "Library_CcLibrary e l T = Inr l"
  using assms by (simp add: Library_CcLibrary_def)

theorem Library_CcLibrary_returns_itself_witness:
  "toolchainOrDefault env0 (Some (Gcc TestGcc)) = Inr (Gcc TestGcc)
   \<and> toolchainOrDefault env0 (lib_Toolchain fooLibrary) = Inr (Gcc NativeGcc)
   \<and> ToolchainAccepts (Gcc TestGcc) (Gcc NativeGcc)
   \<and> Library_CcLibrary env0 fooLibrary (Some (Gcc TestGcc)) = Inr fooLibrary
   \<and> lib_Toolchain fooLibrary = None"
proof -
  have 1: "toolchainOrDefault env0 (Some (Gcc TestGcc)) = Inr (Gcc TestGcc)"
    by simp
  have 2: "toolchainOrDefault env0 (lib_Toolchain fooLibrary) = Inr (Gcc NativeGcc)"
    by (simp add: fooLibrary_def emptyLibrary_def)
  have 3: "ToolchainAccepts (Gcc TestGcc) (Gcc NativeGcc)"
    by (simp add: TestGcc_def NativeGcc_def GccToolchain_Accepts_def)
  show ?thesis
    using Library_CcLibrary_returns_itself [OF 1 2 3] 1 2 3
    by (simp add: fooLibrary_def emptyLibrary_def)
qed

subsection \<open>Multi-toolchain libraries\<close>

lemma MultipleToolchains_Inr:
  "MultipleToolchains l = Inr mtl \<Longrightarrow> \<exists>P. lib_Out l = Some P \<and> mtl_baseOut mtl = Some P \<and> mtl_lib mtl = l"
  by (auto simp: MultipleToolchains_def split: if_splits)

lemma libPath_WithPrefix_neq:
  assumes "lib_Out r = Some P" and "lib_Out r' = Some (WithPrefix (AsPath P) (n @ ''/''))"
  shows "libPath e r \<noteq> libPath e r'"
proof -
  obtain p where P: "P = OutPath p" by (cases P)
  show ?thesis using assms by (simp add: libPath_def WithPrefix_def P)
qed

lemma libPath_WithPrefix_inj:
  assumes "lib_Out r = Some (WithPrefix (AsPath P) (n @ ''/''))"
      and "lib_Out r' = Some (WithPrefix (AsPath P) (n' @ ''/''))" and "n \<noteq> n'"
  shows "libPath e r \<noteq> libPath e r'"
  using assms by (simp add: libPath_def WithPrefix_def)

lemma mtl_CcLibrary_eq:
  assumes "MultipleToolchains l = Inr mtl" and "DefaultToolchain e = Inr D"
      and "toolchainOrDefault e T = Inr Y" and "lib_Out l = Some P"
  shows "multipleToolchainLibrary_CcLibrary e mtl T =
           Inr (l\<lparr>lib_Out := Some (if Name Y = Name D then P
                                    else WithPrefix (AsPath P) (Name Y @ ''/'')),
                  lib_Toolchain := Some Y\<rparr>)"
  using assms MultipleToolchains_Inr[OF assms(1)]
  by (auto simp: multipleToolchainLibrary_CcLibrary_def)

text \<open>
  C3, as the code has it. For a multi-toolchain library made by
  \<open>MultipleToolchains\<close> from a library with output path \<open>P\<close>, resolved under the
  toolchain \<open>Y\<close> (the requested one, or the default for nil) while the default
  toolchain is \<open>D\<close>: the result is a copy of the wrapped library whose \<open>Toolchain\<close>
  field is bound to \<open>Y\<close> in every case; its output path is the bare \<open>P\<close> when \<open>Y\<close> has
  the name of \<open>D\<close>, and \<open>P\<close> prefixed by the name of \<open>Y\<close> and a slash otherwise; no
  other field changes. The variants for two toolchains of different names have
  different absolute output paths.
\<close>

theorem multipleToolchainLibrary_CcLibrary_variants:
  assumes "MultipleToolchains l = Inr mtl" and "DefaultToolchain e = Inr D"
      and "toolchainOrDefault e T = Inr Y"
  shows "\<exists>P. lib_Out l = Some P
           \<and> multipleToolchainLibrary_CcLibrary e mtl T =
               Inr (l\<lparr>lib_Out := Some (if Name Y = Name D then P
                                        else WithPrefix (AsPath P) (Name Y @ ''/'')),
                      lib_Toolchain := Some Y\<rparr>)
           \<and> (\<forall>T' Y' r r'. toolchainOrDefault e T' = Inr Y' \<longrightarrow> Name Y' \<noteq> Name Y
                 \<longrightarrow> multipleToolchainLibrary_CcLibrary e mtl T = Inr r
                 \<longrightarrow> multipleToolchainLibrary_CcLibrary e mtl T' = Inr r'
                 \<longrightarrow> libPath e r \<noteq> libPath e r')"
proof -
  obtain P where P: "lib_Out l = Some P"
    using MultipleToolchains_Inr[OF assms(1)] by blast
  note eq = mtl_CcLibrary_eq[OF assms(1,2) _ P]
  have "libPath e r \<noteq> libPath e r'"
    if "toolchainOrDefault e T' = Inr Y'" "Name Y' \<noteq> Name Y"
       "multipleToolchainLibrary_CcLibrary e mtl T = Inr r"
       "multipleToolchainLibrary_CcLibrary e mtl T' = Inr r'" for T' Y' r r'
  proof -
    have r: "lib_Out r = Some (if Name Y = Name D then P else WithPrefix (AsPath P) (Name Y @ ''/''))"
      using that(3) eq[OF assms(3)] by auto
    have r': "lib_Out r' = Some (if Name Y' = Name D then P else WithPrefix (AsPath P) (Name Y' @ ''/''))"
      using that(4) eq[OF that(1)] by auto
    show ?thesis
    proof (cases "Name Y = Name D")
      case True
      then show ?thesis
        using r r' that(2) libPath_WithPrefix_neq[of r P r' "Name Y'" e] by simp
    next
      case False
      then show ?thesis
        using r r' that(2) libPath_WithPrefix_neq[of r' P r "Name Y" e]
          libPath_WithPrefix_inj[of r P "Name Y" r' "Name Y'" e]
        by (cases "Name Y' = Name D") auto
    qed
  qed
  then show ?thesis using P eq[OF assms(3)] by blast
qed

theorem multipleToolchainLibrary_CcLibrary_variants_witness:
  "MultipleToolchains fooLibrary = Inr \<lparr>mtl_baseOut = Some (OutPath ''foo.a''), mtl_lib = fooLibrary\<rparr>
   \<and> DefaultToolchain env0 = Inr (Gcc NativeGcc)
   \<and> toolchainOrDefault env0 (Some (Gcc ArmGcc)) = Inr (Gcc ArmGcc)
   \<and> multipleToolchainLibrary_CcLibrary env0
        \<lparr>mtl_baseOut = Some (OutPath ''foo.a''), mtl_lib = fooLibrary\<rparr> (Some (Gcc ArmGcc)) =
       Inr (fooLibrary\<lparr>lib_Out := Some (OutPath ''arm/foo.a''), lib_Toolchain := Some (Gcc ArmGcc)\<rparr>)
   \<and> multipleToolchainLibrary_CcLibrary env0
        \<lparr>mtl_baseOut = Some (OutPath ''foo.a''), mtl_lib = fooLibrary\<rparr> None =
       Inr (fooLibrary\<lparr>lib_Toolchain := Some (Gcc NativeGcc)\<rparr>)"
proof -
  have m: "MultipleToolchains fooLibrary = Inr \<lparr>mtl_baseOut = Some (OutPath ''foo.a''), mtl_lib = fooLibrary\<rparr>"
    by (simp add: MultipleToolchains_def fooLibrary_def)
  have d: "DefaultToolchain env0 = Inr (Gcc NativeGcc)" by simp
  have t: "toolchainOrDefault env0 (Some (Gcc ArmGcc)) = Inr (Gcc ArmGcc)" by simp
  have n: "toolchainOrDefault env0 None = Inr (Gcc NativeGcc)" by simp
  show ?thesis
    using multipleToolchainLibrary_CcLibrary_variants [OF m d t]
          multipleToolchainLibrary_CcLibrary_variants [OF m d n] m d t
    by (simp add: fooLibrary_def emptyLibrary_def ArmGcc_def NativeGcc_def WithPrefix_def)
qed

text \<open>
  The claim C3 as stated fails: a wrapped library pinned to the test toolchain comes
  back from the resolution under the default toolchain pinned to the default
  toolchain, so it is not the wrapped library unchanged.
\<close>

theorem multipleToolchainLibrary_default_rebinds_counterexample:
  "MultipleToolchains (fooLibrary\<lparr>lib_Toolchain := Some (Gcc TestGcc)\<rparr>) =
     Inr \<lparr>mtl_baseOut = Some (OutPath ''foo.a''),
          mtl_lib = fooLibrary\<lparr>lib_Toolchain := Some (Gcc TestGcc)\<rparr>\<rparr>
   \<and> DefaultToolchain env0 = Inr (Gcc NativeGcc)
   \<and> multipleToolchainLibrary_CcLibrary env0
        \<lparr>mtl_baseOut = Some (OutPath ''foo.a''),
         mtl_lib = fooLibrary\<lparr>lib_Toolchain := Some (Gcc TestGcc)\<rparr>\<rparr> (Some (Gcc NativeGcc))
       = Inr (fooLibrary\<lparr>lib_Toolchain := Some (Gcc NativeGcc)\<rparr>)
   \<and> fooLibrary\<lparr>lib_Toolchain := Some (Gcc NativeGcc)\<rparr>
       \<noteq> fooLibrary\<lparr>lib_Toolchain := Some (Gcc TestGcc)\<rparr>"
  by (simp add: MultipleToolchains_def multipleToolchainLibrary_CcLibrary_def fooLibrary_def
        emptyLibrary_def TestGcc_def NativeGcc_def)

section \<open>The dependency closure\<close>

lemma keys_simps [simp]:
  "keys e [] = {}"
  "keys e (l # ls) = (case libPath e l of None \<Rightarrow> {} | Some p \<Rightarrow> {p}) \<union> keys e ls"
  "keys e (xs @ ys) = keys e xs \<union> keys e ys"
  by (auto simp: keys_def split: option.splits)

lemma set_libPath_keys:
  "None \<notin> set (map (libPath e) ls) \<Longrightarrow> set (map (libPath e) ls) = Some ` keys e ls"
  by (induction ls) (auto split: option.splits)

lemma collectRec_inv:
  "collectDepsWithToolchainRec n e h tc ds V = Some (Inr (libs, V')) \<Longrightarrow>
     V' = V \<union> keys e libs \<and> distinct (map (libPath e) libs)
     \<and> keys e libs \<inter> V = {} \<and> None \<notin> set (map (libPath e) libs)"
proof (induction n e h tc ds V arbitrary: libs V' rule: collectDepsWithToolchainRec.induct)
  case (1 e h toolchain deps visited)
  then show ?case by simp
next
  case (2 n e h toolchain visited)
  then show ?case by simp
next
  case (3 n e h toolchain dep deps visited)
  from "3.prems" obtain l where l: "Dep_CcLibrary e dep toolchain = Inr l"
    by (auto split: sum.splits)
  from "3.prems" l obtain out where out: "lib_Out l = Some out"
    by (auto split: option.splits)
  let ?p = "Absolute (env_dirs e) (AsPath out)"
  have lp: "libPath e l = Some ?p" by (simp add: libPath_def out)
  show ?case
  proof (cases "?p \<in> visited")
    case True
    with "3.prems" l out have "collectDepsWithToolchainRec (Suc n) e h toolchain deps visited = Some (Inr (libs, V'))"
      by simp
    moreover from True have "\<not> ?p \<notin> visited" by simp
    ultimately show ?thesis using "3.IH"(3)[OF l out refl] by simp
  next
    case False
    with "3.prems" l out obtain sub V1 rest where
      sub: "collectDepsWithToolchainRec n e h toolchain (map (load h) (lib_Deps l)) (insert ?p visited) = Some (Inr (sub, V1))"
      and rest: "collectDepsWithToolchainRec (Suc n) e h toolchain deps V1 = Some (Inr (rest, V'))"
      and libs: "libs = l # sub @ rest"
      by (auto split: option.splits sum.splits prod.splits)
    note ih1 = "3.IH"(1)[OF l out refl False sub]
    note ih2 = "3.IH"(2)[OF l out refl False sub refl refl rest]
    have V1: "V1 = insert ?p visited \<union> keys e sub" and V': "V' = V1 \<union> keys e rest"
      using ih1 ih2 by simp_all
    have disj: "keys e sub \<inter> insert ?p visited = {}" "keys e rest \<inter> V1 = {}"
      using ih1 ih2 by simp_all
    have "set (map (libPath e) sub) \<inter> set (map (libPath e) rest) = {}"
      using disj V1 set_libPath_keys[of e sub] set_libPath_keys[of e rest] ih1 ih2
      by auto
    moreover have "libPath e l \<notin> set (map (libPath e) sub)" "libPath e l \<notin> set (map (libPath e) rest)"
      using disj V1 set_libPath_keys[of e sub] set_libPath_keys[of e rest] ih1 ih2 lp
      by auto
    ultimately have "distinct (map (libPath e) libs)"
      using ih1 ih2 unfolding libs by simp
    moreover have "V' = visited \<union> keys e libs"
      unfolding libs V' V1 using lp by auto
    moreover have "keys e libs \<inter> visited = {}"
      unfolding libs using lp False disj V1 by auto
    moreover have "None \<notin> set (map (libPath e) libs)"
      unfolding libs using lp ih1 ih2 by auto
    ultimately show ?thesis by blast
  qed
qed


lemma reached_mono:
  "reached e h tc ds l \<Longrightarrow> set ds \<subseteq> set ds' \<Longrightarrow> reached e h tc ds' l"
  by (induction rule: reached.induct) (auto intro: reached.intros)

lemma reached_Cons: "reached e h tc ds l \<Longrightarrow> reached e h tc (d # ds) l"
  by (rule reached_mono) auto

lemma reached_trans:
  "reached e h tc (map (load h) (lib_Deps l')) l \<Longrightarrow> reached e h tc ds l' \<Longrightarrow> reached e h tc ds l"
  by (induction rule: reached.induct) (auto intro: reached.intros)

lemma collectRec_mono:
  "collectDepsWithToolchainRec n e h tc ds V = Some (Inr (libs, V')) \<Longrightarrow> V \<subseteq> V'"
  using collectRec_inv by blast

lemma collectRec_closed:
  "collectDepsWithToolchainRec n e h tc ds V = Some (Inr (libs, V')) \<Longrightarrow>
     (\<forall>dep\<in>set ds. \<exists>p. depPath e tc dep = Some p \<and> p \<in> V')
     \<and> (\<forall>l\<in>set libs. \<forall>r\<in>set (lib_Deps l). \<exists>p. depPath e tc (load h r) = Some p \<and> p \<in> V')
     \<and> (\<forall>l\<in>set libs. reached e h tc ds l)"
proof (induction n e h tc ds V arbitrary: libs V' rule: collectDepsWithToolchainRec.induct)
  case (1 e h toolchain deps visited)
  then show ?case by simp
next
  case (2 n e h toolchain visited)
  then show ?case by simp
next
  case (3 n e h toolchain dep deps visited)
  from "3.prems" obtain l where l: "Dep_CcLibrary e dep toolchain = Inr l"
    by (auto split: sum.splits)
  from "3.prems" l obtain out where out: "lib_Out l = Some out"
    by (auto split: option.splits)
  let ?p = "Absolute (env_dirs e) (AsPath out)"
  have dp: "depPath e toolchain dep = Some ?p" by (simp add: depPath_def libPath_def l out)
  show ?case
  proof (cases "?p \<in> visited")
    case True
    with "3.prems" l out have rest: "collectDepsWithToolchainRec (Suc n) e h toolchain deps visited = Some (Inr (libs, V'))"
      by simp
    moreover from True have "\<not> ?p \<notin> visited" by simp
    ultimately have ih: "(\<forall>dep\<in>set deps. \<exists>p. depPath e toolchain dep = Some p \<and> p \<in> V')
        \<and> (\<forall>l\<in>set libs. \<forall>r\<in>set (lib_Deps l). \<exists>p. depPath e toolchain (load h r) = Some p \<and> p \<in> V')
        \<and> (\<forall>l\<in>set libs. reached e h toolchain deps l)"
      using "3.IH"(3)[OF l out refl] by simp
    have "?p \<in> V'" using collectRec_mono[OF rest] True by auto
    moreover have "\<forall>l\<in>set libs. reached e h toolchain (dep # deps) l"
      using ih reached_Cons by blast
    ultimately show ?thesis using ih dp by auto
  next
    case False
    with "3.prems" l out obtain sub V1 rest where
      sub: "collectDepsWithToolchainRec n e h toolchain (map (load h) (lib_Deps l)) (insert ?p visited) = Some (Inr (sub, V1))"
      and rest: "collectDepsWithToolchainRec (Suc n) e h toolchain deps V1 = Some (Inr (rest, V'))"
      and libs: "libs = l # sub @ rest"
      by (auto split: option.splits sum.splits prod.splits)
    note ih1 = "3.IH"(1)[OF l out refl False sub]
    note ih2 = "3.IH"(2)[OF l out refl False sub refl refl rest]
    have m1: "insert ?p visited \<subseteq> V1" and m2: "V1 \<subseteq> V'"
      using collectRec_mono[OF sub] collectRec_mono[OF rest] by auto
    have rl: "reached e h toolchain (dep # deps) l"
      using l by (auto intro: reached.root)
    have a: "\<forall>d\<in>set (dep # deps). \<exists>p. depPath e toolchain d = Some p \<and> p \<in> V'"
      using ih2 dp m1 m2 by auto
    have b: "\<exists>p. depPath e toolchain (load h r) = Some p \<and> p \<in> V'"
      if xl: "x \<in> set libs" and rx: "r \<in> set (lib_Deps x)" for x r
    proof -
      consider "x = l" | "x \<in> set sub" | "x \<in> set rest"
        using xl unfolding libs by auto
      then show ?thesis
      proof cases
        case 1
        then have "load h r \<in> set (map (load h) (lib_Deps l))" using rx by simp
        then obtain p where "depPath e toolchain (load h r) = Some p" "p \<in> V1"
          using ih1 by blast
        then show ?thesis using m2 by blast
      next
        case 2
        then obtain p where "depPath e toolchain (load h r) = Some p" "p \<in> V1"
          using ih1 rx by blast
        then show ?thesis using m2 by blast
      next
        case 3
        then show ?thesis using ih2 rx by blast
      qed
    qed
    have c: "reached e h toolchain (dep # deps) x" if xl: "x \<in> set libs" for x
    proof -
      consider "x = l" | "x \<in> set sub" | "x \<in> set rest"
        using xl unfolding libs by auto
      then show ?thesis
      proof cases
        case 1
        then show ?thesis using rl by simp
      next
        case 2
        then have "reached e h toolchain (map (load h) (lib_Deps l)) x" using ih1 by blast
        then show ?thesis by (rule reached_trans[OF _ rl])
      next
        case 3
        then have "reached e h toolchain deps x" using ih2 by blast
        then show ?thesis by (rule reached_Cons)
      qed
    qed
    show ?thesis using a b c by blast
  qed
qed

lemma collectRec_dfs:
  "collectDepsWithToolchainRec n e h tc ds V = Some r \<Longrightarrow>
     dfs_first_discovery e h tc (ds @ work) V =
       (case r of
          Inl err \<Rightarrow> Inl err
        | Inr (libs, V') \<Rightarrow>
            (case dfs_first_discovery e h tc work V' of
               Inl err \<Rightarrow> Inl err
             | Inr ls \<Rightarrow> Inr (libs @ ls)))"
proof (induction n e h tc ds V arbitrary: r work rule: collectDepsWithToolchainRec.induct)
  case (1 e h toolchain deps visited)
  then show ?case by simp
next
  case (2 n e h toolchain visited)
  then show ?case by (auto split: sum.splits)
next
  case (3 n e h toolchain dep deps visited)
  show ?case
  proof (cases "Dep_CcLibrary e dep toolchain")
    case (Inl err)
    with "3.prems" show ?thesis by auto
  next
    case (Inr l)
    note l = this
    show ?thesis
    proof (cases "lib_Out l")
      case None
      with "3.prems" l show ?thesis by auto
    next
      case (Some out)
      note out = this
      let ?p = "Absolute (env_dirs e) (AsPath out)"
      show ?thesis
      proof (cases "?p \<in> visited")
        case True
        with "3.prems" l out have rest: "collectDepsWithToolchainRec (Suc n) e h toolchain deps visited = Some r"
          by simp
        moreover from True have "\<not> ?p \<notin> visited" by simp
        ultimately show ?thesis
          using "3.IH"(3)[OF l out refl, of r work] l out True by simp
      next
        case False
        from "3.prems" l out False obtain r1 where
          sub: "collectDepsWithToolchainRec n e h toolchain (map (load h) (lib_Deps l)) (insert ?p visited) = Some r1"
          by (auto split: option.splits)
        note ih1 = "3.IH"(1)[OF l out refl False sub, of "deps @ work"]
        show ?thesis
        proof (cases r1)
          case (Inl err)
          with "3.prems" l out False sub ih1 show ?thesis by auto
        next
          case (Inr pr)
          obtain sub' V1 where pr: "pr = (sub', V1)" by (cases pr)
          from "3.prems" l out False sub Inr pr obtain r2 where
            rest: "collectDepsWithToolchainRec (Suc n) e h toolchain deps V1 = Some r2"
            by (auto split: option.splits)
          note ih2 = "3.IH"(2)[OF l out refl False sub Inr pr[symmetric] rest, of work]
          from "3.prems" l out False sub Inr pr rest ih1 ih2 show ?thesis
            by (auto split: sum.splits)
        qed
      qed
    qed
  qed
qed

lemma collectRec_returns:
  assumes "finite U"
  shows "resolvedPaths e h tc ds \<subseteq> U \<Longrightarrow> card (U - V) < n \<Longrightarrow>
           collectDepsWithToolchainRec n e h tc ds V \<noteq> None"
proof (induction n e h tc ds V rule: collectDepsWithToolchainRec.induct)
  case (1 e h toolchain deps visited)
  then show ?case by simp
next
  case (2 n e h toolchain visited)
  then show ?case by simp
next
  case (3 n e h toolchain dep deps visited)
  have U_tail: "resolvedPaths e h toolchain deps \<subseteq> U"
    using "3.prems"(1) by (auto simp: resolvedPaths_def depPaths_def)
  show ?case
  proof (cases "Dep_CcLibrary e dep toolchain")
    case (Inl err)
    then show ?thesis by simp
  next
    case (Inr l)
    note l = this
    show ?thesis
    proof (cases "lib_Out l")
      case None
      with l show ?thesis by simp
    next
      case (Some out)
      note out = this
      let ?p = "Absolute (env_dirs e) (AsPath out)"
      show ?thesis
      proof (cases "?p \<in> visited")
        case True
        then have "\<not> ?p \<notin> visited" by simp
        from "3.IH"(3)[OF l out refl this U_tail "3.prems"(2)] l out True
        show ?thesis by simp
      next
        case False
        have pU: "?p \<in> U"
          using "3.prems"(1) l out
          by (auto simp: resolvedPaths_def depPaths_def depPath_def libPath_def)
        have "set (depPaths e toolchain (map (load h) (lib_Deps l))) \<subseteq> set (depPaths e toolchain (map Some h))"
        proof
          fix p assume "p \<in> set (depPaths e toolchain (map (load h) (lib_Deps l)))"
          then obtain r where r: "depPath e toolchain (load h r) = Some p"
            by (auto simp: depPaths_def split: option.splits)
          then have "r < length h"
            by (cases "r < length h") (simp_all add: load_def depPath_def)
          with r have "Some (h ! r) \<in> set (map Some h)" "depPath e toolchain (Some (h ! r)) = Some p"
            by (simp_all add: load_def)
          then show "p \<in> set (depPaths e toolchain (map Some h))"
            unfolding depPaths_def by force
        qed
        then have U_sub: "resolvedPaths e h toolchain (map (load h) (lib_Deps l)) \<subseteq> U"
          using "3.prems"(1) by (auto simp: resolvedPaths_def)
        have "U - insert ?p visited \<subset> U - visited"
          using pU False by auto
        then have "card (U - insert ?p visited) < card (U - visited)"
          using assms by (intro psubset_card_mono) auto
        then have c1: "card (U - insert ?p visited) < n"
          using "3.prems"(2) by simp
        note ih1 = "3.IH"(1)[OF l out refl False U_sub c1]
        then obtain r1 where sub: "collectDepsWithToolchainRec n e h toolchain
              (map (load h) (lib_Deps l)) (insert ?p visited) = Some r1"
          by auto
        show ?thesis
        proof (cases r1)
          case (Inl err)
          with l out False sub show ?thesis by simp
        next
          case (Inr pr)
          obtain sub' V1 where pr: "pr = (sub', V1)" by (cases pr)
          have "visited \<subseteq> V1"
            using collectRec_mono[of n e h toolchain _ "insert ?p visited" sub' V1] sub Inr pr by auto
          then have "card (U - V1) \<le> card (U - visited)"
            using assms by (intro card_mono) auto
          then have c2: "card (U - V1) < Suc n"
            using "3.prems"(2) by simp
          note ih2 = "3.IH"(2)[OF l out refl False sub Inr pr[symmetric] U_tail c2]
          with l out False sub Inr pr show ?thesis
            by (auto split: option.splits sum.splits)
        qed
      qed
    qed
  qed
qed

lemma finite_resolvedPaths: "finite (resolvedPaths e h tc ds)"
  by (simp add: resolvedPaths_def)

lemma collectDepsWithToolchain_Inr:
  "collectDepsWithToolchain n e h T deps = Some (Inr libs) \<Longrightarrow>
     \<exists>V'. collectDepsWithToolchainRec n e h T deps {} = Some (Inr (libs, V'))"
  by (auto simp: collectDepsWithToolchain_def split: option.splits sum.splits)

lemma collect_diamond:
  "collectDepsWithToolchain (Suc (Suc (Suc (Suc 0)))) env0 diamond (Some (Gcc NativeGcc)) [load diamond 0]
     = Some (Inr [libA, libB, libD, libC])"
  by (simp add: collectDepsWithToolchain_def diamond_def load_def Library_CcLibrary_def
        libA_def libB_def libC_def libD_def emptyLibrary_def)

lemma card_cycle:
  "card (resolvedPaths env0 cycle (Some (Gcc NativeGcc)) [load cycle 0]) < Suc (Suc (Suc 0))"
  by (simp add: resolvedPaths_def depPaths_def depPath_def libPath_def cycle_def load_def
        Library_CcLibrary_def libX_def libY_def emptyLibrary_def card_insert_if)

text \<open>
  C1. When the collector returns a list of libraries (under any toolchain, for any
  list of references, over any heap): no key occurs twice in it and every listed
  library has one (the key is the absolute output path of the resolved library);
  every reference of the input and every reference of a listed library resolves to a
  library whose key is listed; every listed library is the resolution of a reference
  the traversal can reach; and the list is the order of first discovery of the
  depth-first traversal \<open>dfs_first_discovery\<close>. The number of chains that reach a
  library plays no part.
\<close>

theorem collectDepsWithToolchain_unique_first_discovery:
  assumes "collectDepsWithToolchain n e h T deps = Some (Inr libs)"
  shows "distinct (map (libPath e) libs) \<and> None \<notin> set (map (libPath e) libs)
         \<and> (\<forall>dep\<in>set deps. \<exists>p. depPath e T dep = Some p \<and> p \<in> keys e libs)
         \<and> (\<forall>l\<in>set libs. \<forall>r\<in>set (lib_Deps l).
               \<exists>p. depPath e T (load h r) = Some p \<and> p \<in> keys e libs)
         \<and> (\<forall>l\<in>set libs. reached e h T deps l)
         \<and> dfs_first_discovery e h T deps {} = Inr libs"
proof -
  obtain V' where rec: "collectDepsWithToolchainRec n e h T deps {} = Some (Inr (libs, V'))"
    using collectDepsWithToolchain_Inr[OF assms] by blast
  have inv: "V' = keys e libs" "distinct (map (libPath e) libs)" "None \<notin> set (map (libPath e) libs)"
    using collectRec_inv[OF rec] by simp_all
  have "dfs_first_discovery e h T (deps @ []) {} = Inr libs"
    using collectRec_dfs[OF rec, of "[]"] by simp
  then show ?thesis
    using inv collectRec_closed[OF rec] by simp
qed

theorem collectDepsWithToolchain_unique_first_discovery_witness:
  "collectDepsWithToolchain (Suc (Suc (Suc (Suc 0)))) env0 diamond (Some (Gcc NativeGcc)) [load diamond 0]
     = Some (Inr [libA, libB, libD, libC])
   \<and> distinct (map (libPath env0) [libA, libB, libD, libC])
   \<and> dfs_first_discovery env0 diamond (Some (Gcc NativeGcc)) [load diamond 0] {}
       = Inr [libA, libB, libD, libC]"
  using collectDepsWithToolchain_unique_first_discovery [OF collect_diamond] collect_diamond
  by simp

text \<open>
  C10. The collector returns, with a list or with an error, on every heap, cyclic
  ones included, as soon as the bound on the depth of the recursion exceeds the
  number of distinct keys the references of the input and of the heap resolve to: a
  nested call is made only after a new key has entered \<open>visited\<close>.
\<close>

theorem collectDepsWithToolchain_terminates:
  assumes "card (resolvedPaths e h T deps) < n"
  shows "\<exists>r. collectDepsWithToolchain n e h T deps = Some r"
proof -
  have "collectDepsWithToolchainRec n e h T deps {} \<noteq> None"
    using collectRec_returns[OF finite_resolvedPaths subset_refl, of e h T deps "{}" n] assms
    by simp
  then show ?thesis
    by (auto simp: collectDepsWithToolchain_def split: option.splits sum.splits)
qed

theorem collectDepsWithToolchain_terminates_witness:
  "card (resolvedPaths env0 cycle (Some (Gcc NativeGcc)) [load cycle 0]) < Suc (Suc (Suc 0))
   \<and> (\<exists>r. collectDepsWithToolchain (Suc (Suc (Suc 0))) env0 cycle (Some (Gcc NativeGcc))
              [load cycle 0] = Some r)
   \<and> collectDepsWithToolchain (Suc (Suc (Suc 0))) env0 cycle (Some (Gcc NativeGcc)) [load cycle 0]
       = Some (Inr [libX, libY])"
proof -
  have "collectDepsWithToolchain (Suc (Suc (Suc 0))) env0 cycle (Some (Gcc NativeGcc)) [load cycle 0]
       = Some (Inr [libX, libY])"
    by (simp add: collectDepsWithToolchain_def cycle_def load_def Library_CcLibrary_def
        libX_def libY_def emptyLibrary_def)
  then show ?thesis
    using collectDepsWithToolchain_terminates [OF card_cycle] card_cycle by simp
qed

section \<open>Builds and the context\<close>

lemma extends_refl [simp]: "extends ctx ctx"
  by (simp add: extends_def)

lemma extends_trans: "extends a b \<Longrightarrow> extends b c \<Longrightarrow> extends a c"
  unfolding extends_def
  by (metis (no_types, lifting) length_take min.absorb2 nat_le_linear order_trans take_all take_take)

lemma extends_AddBuildStep [simp]: "extends ctx (AddBuildStep ctx step)"
  by (simp add: extends_def AddBuildStep_def)

lemma extends_Built [simp]: "extends ctx (snd (Built ctx p))"
  by (auto simp: extends_def Built_def)

lemma ObjectFile_Build_extends:
  "ObjectFile_Build e obj ctx = Inr ctx' \<Longrightarrow> extends ctx ctx'"
  by (cases "toolchainOrDefault e (obj_Toolchain obj)"; cases "ObjectFile_out e obj")
     (auto simp: ObjectFile_Build_def WithTrace_def Let_def)

lemma BlobObject_Build_extends:
  "BlobObject_Build e blob ctx = Inr ctx' \<Longrightarrow> extends ctx ctx'"
  by (cases "toolchainOrDefault e (blob_Toolchain blob)"; cases "BlobObject_out e blob";
      cases "blob_Toolchain blob")
     (auto simp: BlobObject_Build_def WithTrace_def Let_def)

lemma bindE_Inr: "bindE x f = Inr y \<Longrightarrow> \<exists>v. x = Inr v \<and> f v = Inr y"
  by (cases x) auto

lemma bindR_Some_Inr:
  assumes "bindR x f = Some (Inr y)"
  shows "\<exists>v. x = Some (Inr v) \<and> f v = Some (Inr y)"
proof (cases x)
  case None
  with assms show ?thesis by simp
next
  case (Some r)
  with assms show ?thesis by (cases r) auto
qed

lemma compileSources_loop_extends:
  "compileSources_loop e srcs flags includes tc ctx objs = Inr (objs', ctx') \<Longrightarrow> extends ctx ctx'"
proof (induction srcs arbitrary: ctx objs)
  case Nil
  then show ?case by simp
next
  case (Cons src srcs)
  from Cons.prems show ?case
    by (auto simp: Let_def dest!: bindE_Inr dest: ObjectFile_Build_extends Cons.IH intro: extends_trans)
qed

lemma compileSources_extends:
  "compileSources e ctx srcs flags deps tc = Inr (objs, ctx') \<Longrightarrow> extends ctx ctx'"
  by (auto simp: compileSources_def Let_def dest: compileSources_loop_extends)

lemma blobs_loop_extends:
  "blobs_loop e blobs tc ctx objs = Inr (objs', ctx') \<Longrightarrow> extends ctx ctx'"
proof (induction blobs arbitrary: ctx objs)
  case Nil
  then show ?case by simp
next
  case (Cons b blobs)
  from Cons.prems show ?case
    by (auto simp: Let_def dest!: bindE_Inr dest: BlobObject_Build_extends Cons.IH intro: extends_trans)
qed

lemma Library_build_own_extends:
  "Library_build_own e l out tc deps ctx = Inr ctx' \<Longrightarrow> extends ctx ctx'"
  by (auto simp: Library_build_own_def Let_def split: prod.splits if_splits
        dest!: bindE_Inr dest!: compileSources_extends blobs_loop_extends
        intro: extends_trans[OF _ extends_trans[OF _ extends_AddBuildStep]])

lemma forEach_extends:
  assumes "\<And>x c c'. x \<in> set xs \<Longrightarrow> f x c = Some (Inr c') \<Longrightarrow> extends c c'"
  shows "forEach xs f ctx = Some (Inr ctx') \<Longrightarrow> extends ctx ctx'"
  using assms
proof (induction xs arbitrary: ctx)
  case Nil
  then show ?case by simp
next
  case (Cons x xs)
  from Cons.prems(1) obtain c1 where 1: "f x ctx = Some (Inr c1)" and 2: "forEach xs f c1 = Some (Inr ctx')"
    by (auto dest!: bindR_Some_Inr)
  have "extends ctx c1" using Cons.prems(2)[of x ctx c1] 1 by simp
  moreover have "extends c1 ctx'"
  proof (rule Cons.IH[OF 2])
    fix y c c' assume "y \<in> set xs" "f y c = Some (Inr c')"
    then show "extends c c'" using Cons.prems(2)[of y c c'] by simp
  qed
  ultimately show ?case by (rule extends_trans)
qed

lemma Library_build_extends:
  "Library_build n e h l ctx = Some (Inr ctx') \<Longrightarrow> extends ctx ctx'"
proof (induction n arbitrary: l ctx ctx')
  case 0
  then show ?case by simp
next
  case (Suc n)
  from Suc.prems obtain out where out: "lib_Out l = Some out"
    by (auto split: option.splits)
  let ?p = "Absolute (env_dirs e) (AsPath out)"
  let ?c1 = "ctx\<lparr>ctx_built := insert ?p (ctx_built ctx)\<rparr>"
  have e1: "extends ctx ?c1" by (auto simp: extends_def)
  show ?case
  proof (cases "?p \<in> ctx_built ctx")
    case True
    with Suc.prems out have "ctx' = ?c1" by (simp add: Built_def)
    with e1 show ?thesis by simp
  next
    case False
    with Suc.prems out obtain tc deps c2 where
      fe: "forEach deps (\<lambda>d ctx. case lib_Out d of None \<Rightarrow> Some (Inl NilDereference)
              | Some dout \<Rightarrow> WithTrace ctx (''lib:'' @ Relative (AsPath dout)) (Library_build n e h d))
              ?c1 = Some (Inr c2)"
      and own: "Library_build_own e l out tc deps c2 = Inr ctx'"
      by (auto simp: Built_def dest!: bindR_Some_Inr)
    have "extends ?c1 c2"
      by (rule forEach_extends[OF _ fe]) (auto simp: WithTrace_def split: option.splits dest: Suc.IH)
    with e1 Library_build_own_extends[OF own] show ?thesis
      by (blast intro: extends_trans)
  qed
qed

lemma Library_build_registers:
  assumes "Library_build n e h l ctx = Some (Inr ctx')" and "lib_Out l = Some out"
  shows "Absolute (env_dirs e) (AsPath out) \<in> ctx_built ctx'"
proof (cases n)
  case 0
  with assms show ?thesis by simp
next
  case (Suc m)
  let ?p = "Absolute (env_dirs e) (AsPath out)"
  let ?c1 = "ctx\<lparr>ctx_built := insert ?p (ctx_built ctx)\<rparr>"
  show ?thesis
  proof (cases "?p \<in> ctx_built ctx")
    case True
    with assms Suc show ?thesis by (auto simp: Built_def)
  next
    case False
    with assms Suc obtain tc deps c2 where
      fe: "forEach deps (\<lambda>d ctx. case lib_Out d of None \<Rightarrow> Some (Inl NilDereference)
              | Some dout \<Rightarrow> WithTrace ctx (''lib:'' @ Relative (AsPath dout)) (Library_build m e h d))
              ?c1 = Some (Inr c2)"
      and own: "Library_build_own e l out tc deps c2 = Inr ctx'"
      by (auto simp: Built_def dest!: bindR_Some_Inr)
    have "extends ?c1 c2"
      by (rule forEach_extends[OF _ fe])
         (auto simp: WithTrace_def split: option.splits dest: Library_build_extends)
    with Library_build_own_extends[OF own] have "extends ?c1 ctx'"
      by (blast intro: extends_trans)
    then show ?thesis by (auto simp: extends_def)
  qed
qed

lemma Library_build_own_last:
  assumes "Library_build_own e l out tc deps ctx = Inr ctx'"
  shows "length (ctx_steps ctx) < length (ctx_steps ctx') \<and> step_Out (last (ctx_steps ctx')) = out"
proof -
  from assms obtain objs c1 objs2 c2 st where
    1: "compileSources e ctx (lib_Srcs l) (lib_CompilerFlags l) deps (Some tc) = Inr (objs, c1)"
    and 2: "blobs_loop e (lib_Blobs l) tc c1 (objs @ lib_Objs l) = Inr (objs2, c2)"
    and 3: "ctx' = AddBuildStep c2 st" and 4: "step_Out st = out"
    by (auto simp: Library_build_own_def Let_def split: prod.splits if_splits dest!: bindE_Inr)
  have "extends ctx c2"
    using compileSources_extends[OF 1] blobs_loop_extends[OF 2] by (rule extends_trans)
  then have "length (ctx_steps ctx) \<le> length (ctx_steps c2)"
    by (metis extends_def length_take min.cobounded1)
  with 3 4 show ?thesis by (simp add: AddBuildStep_def)
qed

lemma Library_Build_built:
  assumes "lib_Out l = Some out" and "Absolute (env_dirs e) (AsPath out) \<in> ctx_built ctx"
  shows "Library_Build (Suc n) e h l ctx = Some (Inr ctx)"
  using assms by (simp add: Library_Build_def WithTrace_def Built_def insert_absorb)

lemma extends_length: "extends a b \<Longrightarrow> length (ctx_steps a) \<le> length (ctx_steps b)"
  unfolding extends_def by (metis length_take min.cobounded1)

lemma Library_build_first:
  assumes "Library_build n e h l ctx = Some (Inr ctx')" and "lib_Out l = Some out"
      and "Absolute (env_dirs e) (AsPath out) \<notin> ctx_built ctx"
  shows "length (ctx_steps ctx) < length (ctx_steps ctx') \<and> step_Out (last (ctx_steps ctx')) = out"
proof (cases n)
  case 0
  with assms show ?thesis by simp
next
  case (Suc m)
  let ?p = "Absolute (env_dirs e) (AsPath out)"
  let ?c1 = "ctx\<lparr>ctx_built := insert ?p (ctx_built ctx)\<rparr>"
  from assms Suc obtain tc deps c2 where
    fe: "forEach deps (\<lambda>d ctx. case lib_Out d of None \<Rightarrow> Some (Inl NilDereference)
            | Some dout \<Rightarrow> WithTrace ctx (''lib:'' @ Relative (AsPath dout)) (Library_build m e h d))
            ?c1 = Some (Inr c2)"
    and own: "Library_build_own e l out tc deps c2 = Inr ctx'"
    by (auto simp: Built_def dest!: bindR_Some_Inr)
  have "extends ?c1 c2"
    by (rule forEach_extends[OF _ fe])
       (auto simp: WithTrace_def split: option.splits dest: Library_build_extends)
  then have "length (ctx_steps ctx) \<le> length (ctx_steps c2)"
    using extends_length[of ?c1 c2] by simp
  with Library_build_own_last[OF own] show ?thesis by simp
qed

subsection \<open>Evaluation of a library build\<close>

lemma fooLibrary_fields [simp]:
  "lib_Out fooLibrary = Some (OutPath ''foo.a'')" "lib_Srcs fooLibrary = []"
  "lib_Blobs fooLibrary = []" "lib_Objs fooLibrary = []" "lib_Includes fooLibrary = []"
  "lib_CompilerFlags fooLibrary = []" "lib_Deps fooLibrary = []" "lib_Shared fooLibrary = False"
  "lib_AlwaysLink fooLibrary = False" "lib_Toolchain fooLibrary = None"
  by (simp_all add: fooLibrary_def emptyLibrary_def)

lemma NativeGcc_fields [simp]:
  "gcc_Deps NativeGcc = []" "gcc_ToolchainName NativeGcc = ''native-gcc''"
  "gcc_LinkerScript NativeGcc = None" "gcc_CompatibleWith NativeGcc = []"
  by (simp_all add: NativeGcc_def)

lemma Library_CcLibrary_fooLibrary [simp]:
  "Library_CcLibrary env0 fooLibrary (Some (Gcc NativeGcc)) = Inr fooLibrary"
  by (simp add: Library_CcLibrary_def)

lemma collect_foo:
  "collectDepsWithToolchain (Suc (Suc 0)) env0 [] (Some (Gcc NativeGcc)) [Some (DepLibrary fooLibrary)]
     = Some (Inr [fooLibrary])"
  by (simp add: collectDepsWithToolchain_def)

lemma own_foo:
  "Library_build_own env0 fooLibrary (OutPath ''foo.a'') (Gcc NativeGcc) [fooLibrary] c
     = Inr (AddBuildStep c fooStep)"
  by (simp add: Library_build_own_def compileSources_def fooStep_def)

lemma build_foo:
  "Library_Build (Suc (Suc (Suc 0))) env0 [] fooLibrary ctx0
     = Some (Inr \<lparr>ctx_built = {''/out/foo.a''}, ctx_steps = [fooStep]\<rparr>)"
  by (simp add: Library_Build_def WithTrace_def Built_def ctx0_def collect_foo own_foo AddBuildStep_def)

text \<open>
  C4. For a library with an output path: when the context already has the absolute
  output path as built, \<open>Library.Build\<close> returns the context as it is, no step
  added. When an invocation returns a context, that context extends the one it
  started from; if the path was not built before, the invocation has added steps,
  the last of them the step of the library's own output; and an invocation in that
  context or any context that extends it returns the context as it is. So the steps
  of the library are emitted by the first invocation and by no later one.
\<close>

theorem Library_Build_once:
  assumes "lib_Out l = Some out"
  shows "(Absolute (env_dirs e) (AsPath out) \<in> ctx_built ctx
            \<longrightarrow> Library_Build (Suc n) e h l ctx = Some (Inr ctx))
         \<and> (Library_Build m e h l ctx = Some (Inr ctx')
            \<longrightarrow> extends ctx ctx'
                \<and> (Absolute (env_dirs e) (AsPath out) \<notin> ctx_built ctx
                     \<longrightarrow> length (ctx_steps ctx) < length (ctx_steps ctx')
                         \<and> step_Out (last (ctx_steps ctx')) = out)
                \<and> (\<forall>ctx''. extends ctx' ctx''
                     \<longrightarrow> Library_Build (Suc n) e h l ctx'' = Some (Inr ctx'')))"
proof -
  let ?p = "Absolute (env_dirs e) (AsPath out)"
  have a: "Library_Build (Suc n) e h l c = Some (Inr c)" if "?p \<in> ctx_built c" for c
    using Library_Build_built[OF assms that] .
  have b: "extends ctx ctx'
           \<and> (?p \<notin> ctx_built ctx \<longrightarrow> length (ctx_steps ctx) < length (ctx_steps ctx')
                 \<and> step_Out (last (ctx_steps ctx')) = out)
           \<and> (\<forall>ctx''. extends ctx' ctx'' \<longrightarrow> Library_Build (Suc n) e h l ctx'' = Some (Inr ctx''))"
    if "Library_Build m e h l ctx = Some (Inr ctx')"
  proof -
    from that assms have r: "Library_build m e h l ctx = Some (Inr ctx')"
      by (simp add: Library_Build_def WithTrace_def)
    have "?p \<in> ctx_built ctx'"
      using Library_build_registers[OF r assms] .
    then have "Library_Build (Suc n) e h l c = Some (Inr c)" if "extends ctx' c" for c
      using a[of c] that by (auto simp: extends_def)
    then show ?thesis
      using Library_build_extends[OF r] Library_build_first[OF r assms] by blast
  qed
  show ?thesis using a b by blast
qed

theorem Library_Build_once_witness:
  "lib_Out fooLibrary = Some (OutPath ''foo.a'')
   \<and> Library_Build (Suc (Suc (Suc 0))) env0 [] fooLibrary ctx0
       = Some (Inr \<lparr>ctx_built = {''/out/foo.a''}, ctx_steps = [fooStep]\<rparr>)
   \<and> Library_Build (Suc 0) env0 [] fooLibrary \<lparr>ctx_built = {''/out/foo.a''}, ctx_steps = [fooStep]\<rparr>
       = Some (Inr \<lparr>ctx_built = {''/out/foo.a''}, ctx_steps = [fooStep]\<rparr>)"
  using Library_Build_once [of fooLibrary "OutPath ''foo.a''" env0 ctx0 0 "[]" "Suc (Suc (Suc 0))"
          "\<lparr>ctx_built = {''/out/foo.a''}, ctx_steps = [fooStep]\<rparr>"] build_foo
  by simp

section \<open>Missing output paths and unspecified toolchains\<close>

lemma Binary_Build_nil_Out:
  "Binary_Build n e h (bin\<lparr>bin_Out := None\<rparr>) ctx
     = Some (Inl (Fatal ''Out field is required for cc.Binary''))"
  by (simp add: Binary_Build_def)

text \<open>
  C7 fails on the code for a library. \<open>Library.Build\<close> evaluates the trace label
  \<open>"lib:" + lib.Out.Relative()\<close> before it calls \<open>build\<close>: on a nil \<open>Out\<close> the process
  ends in a nil-dereference panic, and the check in \<open>build\<close> that would report
  \<open>Out field is required for cc.Library\<close> is never reached. \<open>Binary.Build\<close> checks
  first and reports its fatal error.
\<close>

theorem Library_Build_nil_Out_panics:
  "Library_Build n e h (l\<lparr>lib_Out := None\<rparr>) ctx = Some (Inl NilDereference)
   \<and> Library_build (Suc n) e h (l\<lparr>lib_Out := None\<rparr>) ctx
       = Some (Inl (Fatal ''Out field is required for cc.Library''))"
  by (simp add: Library_Build_def)

text \<open>
  Where the toolchain field is nil, an object file, a library and a binary build as
  with the default toolchain written out. For a library the closure then lists the
  library itself with the other value of the field, at the same place.
\<close>

lemma collectRec_append:
  "collectDepsWithToolchainRec n e h tc (xs @ ys) V =
     (case collectDepsWithToolchainRec n e h tc xs V of
        None \<Rightarrow> None
      | Some (Inl err) \<Rightarrow> Some (Inl err)
      | Some (Inr (libs, V1)) \<Rightarrow>
          (case collectDepsWithToolchainRec n e h tc ys V1 of
             None \<Rightarrow> None
           | Some (Inl err) \<Rightarrow> Some (Inl err)
           | Some (Inr (libs', V2)) \<Rightarrow> Some (Inr (libs @ libs', V2))))"
proof (induction n e h tc xs V rule: collectDepsWithToolchainRec.induct)
  case (1 e h toolchain deps visited)
  then show ?case by simp
next
  case (2 n e h toolchain visited)
  then show ?case by (auto split: option.splits sum.splits)
next
  case (3 n e h toolchain dep deps visited)
  show ?case
  proof (cases "Dep_CcLibrary e dep toolchain")
    case (Inl err)
    then show ?thesis by simp
  next
    case (Inr l)
    note l = this
    show ?thesis
    proof (cases "lib_Out l")
      case None
      with l show ?thesis by simp
    next
      case (Some out)
      note out = this
      let ?p = "Absolute (env_dirs e) (AsPath out)"
      show ?thesis
      proof (cases "?p \<in> visited")
        case True
        then have "\<not> ?p \<notin> visited" by simp
        from "3.IH"(3)[OF l out refl this] l out True show ?thesis by simp
      next
        case False
        show ?thesis
        proof (cases "collectDepsWithToolchainRec n e h toolchain (map (load h) (lib_Deps l)) (insert ?p visited)")
          case None
          with l out False show ?thesis by simp
        next
          case (Some r1)
          note sub = this
          show ?thesis
          proof (cases r1)
            case (Inl err)
            with l out False sub show ?thesis by simp
          next
            case (Inr pr)
            obtain sub' V1 where pr: "pr = (sub', V1)" by (cases pr)
            from "3.IH"(2)[OF l out refl False sub Inr pr[symmetric]] l out False sub Inr pr
            show ?thesis by (auto split: option.splits sum.splits)
          qed
        qed
      qed
    qed
  qed
qed

lemma forEach_append:
  "forEach (xs @ ys) f ctx = bindR (forEach xs f ctx) (forEach ys f)"
proof (induction xs arbitrary: ctx)
  case Nil
  show ?case by simp
next
  case (Cons x xs)
  show ?case
  proof (cases "f x ctx")
    case None
    then show ?thesis by simp
  next
    case (Some r)
    then show ?thesis using Cons.IH by (cases r) simp_all
  qed
qed


lemma foldl_lib_Includes:
  "foldl (\<lambda>includes dep. includes @ lib_Includes dep) acc deps = acc @ concat (map lib_Includes deps)"
  by (induction deps arbitrary: acc) simp_all

lemma Library_build_own_cong:
  assumes "lib_Srcs l = lib_Srcs l'" and "lib_CompilerFlags l = lib_CompilerFlags l'"
      and "lib_Objs l = lib_Objs l'" and "lib_Blobs l = lib_Blobs l'" and "lib_Shared l = lib_Shared l'"
      and "map lib_Includes deps = map lib_Includes deps'"
  shows "Library_build_own e l out tc deps ctx = Library_build_own e l' out tc deps' ctx"
  using assms by (simp add: Library_build_own_def compileSources_def foldl_lib_Includes)

lemma collectRec_self:
  assumes "Dep_CcLibrary e (Some (DepLibrary l)) tc = Inr l" and "lib_Out l = Some out"
  shows "collectDepsWithToolchainRec (Suc n) e h tc [Some (DepLibrary l)] V =
           (if Absolute (env_dirs e) (AsPath out) \<in> V then Some (Inr ([], V))
            else (case collectDepsWithToolchainRec n e h tc (map (load h) (lib_Deps l))
                         (insert (Absolute (env_dirs e) (AsPath out)) V) of
                    None \<Rightarrow> None
                  | Some (Inl err) \<Rightarrow> Some (Inl err)
                  | Some (Inr (sub, V2)) \<Rightarrow> Some (Inr (l # sub, V2))))"
  using assms by (auto split: option.splits sum.splits)

lemma collect_with_self:
  assumes "Dep_CcLibrary e (Some (DepLibrary l1)) tc = Inr l1"
      and "Dep_CcLibrary e (Some (DepLibrary l2)) tc = Inr l2"
      and "lib_Out l1 = Some out" and "lib_Out l2 = Some out" and "lib_Deps l1 = lib_Deps l2"
  shows "(collectDepsWithToolchain n e h tc (std @ [Some (DepLibrary l1)]) = None
          \<and> collectDepsWithToolchain n e h tc (std @ [Some (DepLibrary l2)]) = None)
       \<or> (\<exists>err. collectDepsWithToolchain n e h tc (std @ [Some (DepLibrary l1)]) = Some (Inl err)
          \<and> collectDepsWithToolchain n e h tc (std @ [Some (DepLibrary l2)]) = Some (Inl err))
       \<or> (\<exists>libs. collectDepsWithToolchain n e h tc (std @ [Some (DepLibrary l1)]) = Some (Inr libs)
          \<and> collectDepsWithToolchain n e h tc (std @ [Some (DepLibrary l2)]) = Some (Inr libs))
       \<or> (\<exists>libs sub. collectDepsWithToolchain n e h tc (std @ [Some (DepLibrary l1)])
                         = Some (Inr (libs @ l1 # sub))
          \<and> collectDepsWithToolchain n e h tc (std @ [Some (DepLibrary l2)])
                         = Some (Inr (libs @ l2 # sub)))"
proof (cases n)
  case 0
  then show ?thesis by (simp add: collectDepsWithToolchain_def)
next
  case (Suc k)
  show ?thesis
    unfolding collectDepsWithToolchain_def collectRec_append Suc
      collectRec_self[OF assms(1,3)] collectRec_self[OF assms(2,4)] assms(5)
    by (auto split: option.splits sum.splits)
qed

lemma Library_build_default:
  assumes D: "DefaultToolchain e = Inr D"
  shows "Library_build n e h (l\<lparr>lib_Toolchain := None\<rparr>) ctx
           = Library_build n e h (l\<lparr>lib_Toolchain := Some D\<rparr>) ctx"
proof (induction n arbitrary: ctx)
  case 0
  show ?case by simp
next
  case (Suc k)
  let ?l1 = "l\<lparr>lib_Toolchain := None\<rparr>" and ?l2 = "l\<lparr>lib_Toolchain := Some D\<rparr>"
  show ?case
  proof (cases "lib_Out l")
    case None
    then show ?thesis by simp
  next
    case (Some out)
    let ?p = "Absolute (env_dirs e) (AsPath out)"
    define body where "body = (\<lambda>d ctx. case lib_Out d of
         None \<Rightarrow> Some (Inl NilDereference)
       | Some dout \<Rightarrow> WithTrace ctx (''lib:'' @ Relative (AsPath dout)) (Library_build k e h d))"
    have body_eq: "body ?l1 c = body ?l2 c" for c
      using Suc.IH[of c] by (simp add: body_def Some WithTrace_def)
    let ?std = "map (load h) (StdDeps D)"
    have r1: "Dep_CcLibrary e (Some (DepLibrary ?l1)) (Some D) = Inr ?l1"
      and r2: "Dep_CcLibrary e (Some (DepLibrary ?l2)) (Some D) = Inr ?l2"
      using D by (simp_all add: Library_CcLibrary_def)
    have step: "bindR (collectDepsWithToolchain k e h (Some D) (?std @ [Some (DepLibrary ?l1)]))
                  (\<lambda>deps. bindR (forEach deps body c) (\<lambda>ctx.
                     Some (Library_build_own e ?l1 out D deps ctx)))
              = bindR (collectDepsWithToolchain k e h (Some D) (?std @ [Some (DepLibrary ?l2)]))
                  (\<lambda>deps. bindR (forEach deps body c) (\<lambda>ctx.
                     Some (Library_build_own e ?l2 out D deps ctx)))" for c
    proof -
      have own: "Library_build_own e ?l1 out D deps1 c' = Library_build_own e ?l2 out D deps2 c'"
        if "map lib_Includes deps1 = map lib_Includes deps2" for deps1 deps2 c'
        by (rule Library_build_own_cong) (simp_all add: that)
      from collect_with_self[OF r1 r2, of out k h ?std]
      consider
        (none) "collectDepsWithToolchain k e h (Some D) (?std @ [Some (DepLibrary ?l1)]) = None"
               "collectDepsWithToolchain k e h (Some D) (?std @ [Some (DepLibrary ?l2)]) = None"
      | (err) err where
               "collectDepsWithToolchain k e h (Some D) (?std @ [Some (DepLibrary ?l1)]) = Some (Inl err)"
               "collectDepsWithToolchain k e h (Some D) (?std @ [Some (DepLibrary ?l2)]) = Some (Inl err)"
      | (same) libs where
               "collectDepsWithToolchain k e h (Some D) (?std @ [Some (DepLibrary ?l1)]) = Some (Inr libs)"
               "collectDepsWithToolchain k e h (Some D) (?std @ [Some (DepLibrary ?l2)]) = Some (Inr libs)"
      | (self) libs sub where
               "collectDepsWithToolchain k e h (Some D) (?std @ [Some (DepLibrary ?l1)])
                  = Some (Inr (libs @ ?l1 # sub))"
               "collectDepsWithToolchain k e h (Some D) (?std @ [Some (DepLibrary ?l2)])
                  = Some (Inr (libs @ ?l2 # sub))"
        using Some by auto
      then show ?thesis
      proof cases
        case none
        then show ?thesis by simp
      next
        case err
        then show ?thesis by simp
      next
        case same
        then show ?thesis using own[of libs libs] by simp
      next
        case self
        have "forEach (?l1 # sub) body c' = forEach (?l2 # sub) body c'" for c'
          by (simp add: body_eq)
        then have "forEach (?l1 # sub) body = forEach (?l2 # sub) body"
          by (rule ext)
        then have fe: "forEach (libs @ ?l1 # sub) body c = forEach (libs @ ?l2 # sub) body c"
          by (simp only: forEach_append)
        have "map lib_Includes (libs @ ?l1 # sub) = map lib_Includes (libs @ ?l2 # sub)"
          by simp
        from own[OF this] fe self show ?thesis by simp
      qed
    qed
    show ?thesis
    proof (cases "?p \<in> ctx_built ctx")
      case True
      then show ?thesis by (simp add: Some Built_def)
    next
      case False
      then show ?thesis
        using step[of "ctx\<lparr>ctx_built := insert ?p (ctx_built ctx)\<rparr>"]
        by (simp add: Some Built_def D body_def)
    qed
  qed
qed

lemma Library_Build_default:
  assumes "DefaultToolchain e = Inr D"
  shows "Library_Build n e h (l\<lparr>lib_Toolchain := None\<rparr>) ctx
           = Library_Build n e h (l\<lparr>lib_Toolchain := Some D\<rparr>) ctx"
  using Library_build_default[OF assms]
  by (cases "lib_Out l") (simp_all add: Library_Build_def WithTrace_def)

lemma ObjectFile_Build_default:
  assumes "DefaultToolchain e = Inr D"
  shows "ObjectFile_Build e (obj\<lparr>obj_Toolchain := None\<rparr>) ctx
           = ObjectFile_Build e (obj\<lparr>obj_Toolchain := Some D\<rparr>) ctx"
  using assms by (simp add: ObjectFile_Build_def ObjectFile_out_def)

lemma Binary_Build_default:
  assumes "DefaultToolchain e = Inr D"
  shows "Binary_Build n e h (bin\<lparr>bin_Toolchain := None\<rparr>) ctx
           = Binary_Build n e h (bin\<lparr>bin_Toolchain := Some D\<rparr>) ctx"
  using assms
  by (cases "bin_Out bin") (simp_all add: Binary_Build_def Binary_build_def WithTrace_def)

lemma BlobObject_Build_nil_Toolchain:
  assumes "DefaultToolchain e = Inr D"
  shows "BlobObject_Build e \<lparr>blob_In = p, blob_Toolchain = None\<rparr> ctx = Inl NilDereference"
  using assms by (simp add: BlobObject_Build_def BlobObject_out_def WithTrace_def)

text \<open>
  C8 fails on the code for a blob object. \<open>BlobObject.Build\<close> resolves the default
  toolchain for the output path and the description, but asks the field
  \<open>blob.Toolchain\<close> for the command: with the field nil the build panics, where the
  same blob with the default toolchain written out emits its step. The other three
  build units do as the claim says (\<open>ObjectFile_Build_default\<close>,
  \<open>Library_Build_default\<close>, \<open>Binary_Build_default\<close>).
\<close>

theorem BlobObject_Build_nil_Toolchain_panics:
  "BlobObject_Build env0 \<lparr>blob_In = SourcePath ''data.bin'', blob_Toolchain = None\<rparr> ctx0
     = Inl NilDereference
   \<and> BlobObject_Build env0
         \<lparr>blob_In = SourcePath ''data.bin'', blob_Toolchain = Some (Gcc NativeGcc)\<rparr> ctx0
     = Inr \<lparr>ctx_built = {},
            ctx_steps =
              [\<lparr>step_Out = OutPath ''native-gcc/data.blob.o'', step_Depfile = None,
                step_In = Some (SourcePath ''data.bin''), step_Ins = [],
                step_Cmd = GccToolchain_BlobObject (env_dirs env0) NativeGcc
                             (OutPath ''native-gcc/data.blob.o'') (SourcePath ''data.bin''),
                step_Descr = ''BLOB (toolchain: native-gcc) native-gcc/data.blob.o''\<rparr>]\<rparr>"
  by (simp add: BlobObject_Build_def BlobObject_out_def WithTrace_def AddBuildStep_def ctx0_def
        WithExt_def WithPrefix_def strip_ext_def)

section \<open>Generated commands\<close>

subsection \<open>Quoting and reading back\<close>

lemma special_chars [simp]:
  "dquote \<noteq> backslash" "backslash \<noteq> dquote"
  "dquote \<noteq> CHR '' ''" "dquote \<noteq> CHR '';''" "dquote \<noteq> CHR ''>''"
  "backslash \<noteq> CHR '' ''" "backslash \<noteq> CHR '';''" "backslash \<noteq> CHR ''>''"
  "dquote \<noteq> CHR ''$''" "dquote \<noteq> CHR 0x60" "backslash \<noteq> CHR ''$''" "backslash \<noteq> CHR 0x60"
  "backslash \<noteq> CHR 0x0A" "dquote \<noteq> CHR 0x0A"
  by (simp_all add: dquote_def backslash_def)

lemma of_char_dquote: "((of_char c :: nat) = 0x22) = (c = dquote)"
proof -
  have "(of_char dquote :: nat) = 0x22" by (simp add: dquote_def)
  then show ?thesis by (metis of_char_eq_iff)
qed

lemma of_char_backslash: "((of_char c :: nat) = 0x5C) = (c = backslash)"
proof -
  have "(of_char backslash :: nat) = 0x5C" by (simp add: backslash_def)
  then show ?thesis by (metis of_char_eq_iff)
qed

text \<open>On printable ASCII, \<open>%q\<close> escapes the double quote and the backslash only.\<close>

lemma appendEscapedRune_printable:
  assumes "printable_ascii c"
  shows "appendEscapedRune table (of_char c) = escape_char c"
  using assms
  by (simp add: appendEscapedRune_def escape_char_def printable_ascii_def IsPrint_def
        AppendRune_def of_char_dquote of_char_backslash)

lemma appendQuoted_loop_printable_append:
  "list_all printable_ascii s \<Longrightarrow>
     appendQuoted_loop table (s @ t) = concat (map escape_char s) @ appendQuoted_loop table t"
proof (induction s)
  case Nil
  show ?case by simp
next
  case (Cons c s)
  then have c: "printable_ascii c" by simp
  then have "(of_char c :: nat) < 0x80" "(of_char c :: nat) \<noteq> RuneError"
    by (simp_all add: printable_ascii_def RuneError_def)
  then show ?case
    using Cons appendEscapedRune_printable[OF c] by simp
qed

lemma appendQuoted_loop_printable:
  "list_all printable_ascii s \<Longrightarrow> appendQuoted_loop table s = concat (map escape_char s)"
  using appendQuoted_loop_printable_append[of s table "[]"] by simp

text \<open>A tab is written as a backslash and a \<open>t\<close>.\<close>

lemma appendQuoted_loop_tab:
  "appendQuoted_loop table (CHR 0x09 # s) = backslash # CHR ''t'' # appendQuoted_loop table s"
  by (simp add: appendEscapedRune_def IsPrint_def RuneError_def)

lemma plain_printable: "plain s \<Longrightarrow> list_all printable_ascii s"
  by (induction s) (simp_all add: plain_def plain_char_def)

text \<open>
  Between double quotes, the shell reads the quoted form of a plain string back as
  the string.
\<close>

lemma lex_quoted_body:
  "plain s \<Longrightarrow>
     shell_lex vars True (concat (map escape_char s) @ dquote # rest) (InWord w False)
       = shell_lex vars False rest (InWord (w @ s) False)"
proof (induction s arbitrary: w)
  case Nil
  show ?case by (cases rest) simp_all
next
  case (Cons c s)
  then have pc: "plain_char c" and ps: "plain s" by (simp_all add: plain_def)
  from pc have nd: "c \<noteq> CHR ''$''" "c \<noteq> CHR 0x60" by (simp_all add: plain_char_def)
  obtain c' cs where r: "concat (map escape_char s) @ dquote # rest = c' # cs"
    by (cases "concat (map escape_char s) @ dquote # rest") auto
  show ?case
  proof (cases "c = dquote \<or> c = backslash")
    case True
    then have "escape_char c = [backslash, c]" by (simp add: escape_char_def)
    with True show ?thesis
      using Cons.IH[OF ps, of "w @ [c]"] by (auto simp: put_def)
  next
    case False
    then have "escape_char c = [c]" by (simp add: escape_char_def)
    with False nd show ?thesis
      using Cons.IH[OF ps, of "w @ [c]"] by (simp add: put_def r)
  qed
qed

lemma lex_fmt_q:
  "plain s \<Longrightarrow>
     shell_lex vars False (fmt_q table s @ rest) NoWord = shell_lex vars False rest (InWord s False)"
  using lex_quoted_body[of s vars rest "[]"]
  by (simp add: fmt_q_def appendQuoted_loop_printable plain_printable)

lemma lex_fmt_q_space:
  "plain s \<Longrightarrow>
     shell_lex vars False (fmt_q table s @ CHR '' '' # rest) NoWord
       = map_option ((#) (Word s)) (shell_lex vars False rest NoWord)"
  by (cases "shell_lex vars False rest NoWord") (simp_all add: lex_fmt_q)

lemma joinQuoted_eq: "joinQuoted d paths = concat (map (\<lambda>p. fmt_q_path d p @ '' '') paths)"
proof -
  have "foldl (\<lambda>b p. b @ fmt_q_path d p @ '' '') acc paths
          = acc @ concat (map (\<lambda>p. fmt_q_path d p @ '' '') paths)" for acc
    by (induction paths arbitrary: acc) simp_all
  then show ?thesis by (simp add: joinQuoted_def)
qed

lemma lex_joinQuoted:
  "list_all (\<lambda>p. plain (Absolute d p)) paths \<Longrightarrow>
     shell_lex vars False (joinQuoted d paths @ rest) NoWord
       = map_option ((@) (map (\<lambda>p. Word (Absolute d p)) paths)) (shell_lex vars False rest NoWord)"
proof (induction paths)
  case Nil
  show ?case by (cases "shell_lex vars False rest NoWord") (simp_all add: joinQuoted_eq)
next
  case (Cons p paths)
  then have p: "plain (Absolute d p)" and ps: "list_all (\<lambda>p. plain (Absolute d p)) paths"
    by simp_all
  have "shell_lex vars False (joinQuoted d (p # paths) @ rest) NoWord
          = shell_lex vars False
              (fmt_q (isPrintTable d) (Absolute d p) @ CHR '' '' # joinQuoted d paths @ rest) NoWord"
    by (simp add: joinQuoted_eq fmt_q_path_def)
  also have "\<dots> = map_option ((#) (Word (Absolute d p)))
                     (shell_lex vars False (joinQuoted d paths @ rest) NoWord)"
    by (rule lex_fmt_q_space[OF p])
  finally show ?case
    unfolding Cons.IH[OF ps] by (cases "shell_lex vars False rest NoWord") simp_all
qed

lemma parse_words:
  "shell_parse (map (\<lambda>p. Word (f p)) ps) = Some [\<lparr>argv = map f ps, redirects = []\<rparr>]"
  by (induction ps) simp_all

subsection \<open>The static-archive command\<close>

lemma NativeGcc_tools [simp]:
  "gcc_Ar NativeGcc = GlobalPath ''ar''" "gcc_Cxx NativeGcc = GlobalPath ''g++''"
  "gcc_LinkerFlags NativeGcc = [''-fdiagnostics-color=always'']"
  by (simp_all add: NativeGcc_def)

lemma StaticLibrary_tokens:
  assumes "plain (Absolute d out)" and "plain (Absolute d (gcc_Ar gcc))"
      and "list_all (\<lambda>p. plain (Absolute d p)) objs"
  shows "shell_tokens vars (GccToolchain_StaticLibrary d gcc out objs) =
           Some ([Word ''rm'', Word (Absolute d out), Redirect ''2'', Word ''/dev/null'', Semi,
                  Word (Absolute d (gcc_Ar gcc)), Word ''rcs'', Word (Absolute d out)]
                 @ map (\<lambda>p. Word (Absolute d p)) objs)"
proof -
  have objs: "shell_lex vars False (joinQuoted d objs) NoWord
                = Some (map (\<lambda>p. Word (Absolute d p)) objs)"
    using lex_joinQuoted[OF assms(3), of vars "[]"] by simp
  have 3: "shell_lex vars False (fmt_q (isPrintTable d) (Absolute d out) @ CHR '' '' # joinQuoted d objs)
             NoWord = Some (Word (Absolute d out) # map (\<lambda>p. Word (Absolute d p)) objs)"
    unfolding lex_fmt_q_space[OF assms(1)] objs by simp
  have 2: "shell_lex vars False
             (fmt_q (isPrintTable d) (Absolute d (gcc_Ar gcc)) @ CHR '' '' # ''rcs ''
                @ fmt_q (isPrintTable d) (Absolute d out) @ CHR '' '' # joinQuoted d objs) NoWord
           = Some (Word (Absolute d (gcc_Ar gcc)) # Word ''rcs'' # Word (Absolute d out)
                   # map (\<lambda>p. Word (Absolute d p)) objs)"
    unfolding lex_fmt_q_space[OF assms(2)] using 3
    by (simp add: word_char_def letter_def digit_def put_def dquote_def)
  have 1: "shell_lex vars False
             (fmt_q (isPrintTable d) (Absolute d out) @ CHR '' '' # ''2>/dev/null ; ''
                @ fmt_q (isPrintTable d) (Absolute d (gcc_Ar gcc)) @ CHR '' '' # ''rcs ''
                @ fmt_q (isPrintTable d) (Absolute d out) @ CHR '' '' # joinQuoted d objs) NoWord
           = Some (Word (Absolute d out) # Redirect ''2'' # Word ''/dev/null'' # Semi
                   # Word (Absolute d (gcc_Ar gcc)) # Word ''rcs'' # Word (Absolute d out)
                   # map (\<lambda>p. Word (Absolute d p)) objs)"
    unfolding lex_fmt_q_space[OF assms(1)] using 2
    by (simp add: word_char_def letter_def digit_def put_def dquote_def)
  show ?thesis
    unfolding shell_tokens_def GccToolchain_StaticLibrary_def fmt_q_path_def using 1
    by (simp add: word_char_def letter_def digit_def put_def dquote_def)
qed



text \<open>
  \<open>%q\<close> is the quoting of Go, not of the shell. An output path with a tab is written
  with \<open>\t\<close>, which the shell reads between double quotes as a backslash and a \<open>t\<close>;
  an output path with \<open>$x\<close> is written as it is, and the shell puts the value of the
  variable \<open>x\<close> in its place. In both cases the file that \<open>rm\<close> and the archiver are
  given is not the output path.
\<close>

lemma fmt_q_tabPath:
  "fmt_q_path (env_dirs env0) tabPath = dquote # ''/out/a'' @ backslash # ''tb.a'' @ [dquote]"
proof -
  have a: "appendQuoted_loop table (''/out/a'' @ CHR 0x09 # ''b.a'')
             = concat (map escape_char ''/out/a'') @ appendQuoted_loop table (CHR 0x09 # ''b.a'')"
    for table
    by (rule appendQuoted_loop_printable_append) (simp add: printable_ascii_def)
  have b: "appendQuoted_loop table ''b.a'' = concat (map escape_char ''b.a'')" for table
    by (rule appendQuoted_loop_printable) (simp add: printable_ascii_def)
  have "fmt_q table (''/out/a'' @ CHR 0x09 # ''b.a'')
          = dquote # ''/out/a'' @ backslash # ''tb.a'' @ [dquote]" for table
    unfolding fmt_q_def a appendQuoted_loop_tab b
    by (simp add: escape_char_def dquote_def backslash_def)
  then show ?thesis
    by (simp add: fmt_q_path_def tabPath_def)
qed

lemma fmt_q_printable:
  "list_all printable_ascii s \<Longrightarrow> fmt_q table s = dquote # concat (map escape_char s) @ [dquote]"
  by (simp add: fmt_q_def appendQuoted_loop_printable)

lemma fmt_q_dollarPath:
  "fmt_q_path (env_dirs env0) dollarPath = dquote # ''/out/$x.a'' @ [dquote]"
  by (simp add: fmt_q_path_def dollarPath_def fmt_q_printable
        printable_ascii_def escape_char_def dquote_def backslash_def)

lemma fmt_q_ar:
  "fmt_q_path (env_dirs env0) (GlobalPath ''ar'') = dquote # ''ar'' @ [dquote]"
  by (simp add: fmt_q_path_def fmt_q_printable
        printable_ascii_def escape_char_def dquote_def backslash_def)

lemma StaticLibrary_tabPath:
  "GccToolchain_StaticLibrary (env_dirs env0) NativeGcc tabPath [] =
     ''rm '' @ dquote # ''/out/a'' @ backslash # ''tb.a'' @ dquote # '' 2>/dev/null ; ''
       @ dquote # ''ar'' @ dquote # '' rcs '' @ dquote # ''/out/a'' @ backslash # ''tb.a''
       @ dquote # '' ''"
  unfolding GccToolchain_StaticLibrary_def joinQuoted_def NativeGcc_tools fmt_q_tabPath fmt_q_ar
  by simp

lemma StaticLibrary_dollarPath:
  "GccToolchain_StaticLibrary (env_dirs env0) NativeGcc dollarPath [] =
     ''rm '' @ dquote # ''/out/$x.a'' @ dquote # '' 2>/dev/null ; ''
       @ dquote # ''ar'' @ dquote # '' rcs '' @ dquote # ''/out/$x.a'' @ dquote # '' ''"
  unfolding GccToolchain_StaticLibrary_def joinQuoted_def NativeGcc_tools fmt_q_dollarPath fmt_q_ar
  by simp


subsection \<open>The link command\<close>

lemma libOuts_simps [simp]:
  "libOuts [] = []"
  "libOuts (l # ls) = (case lib_Out l of None \<Rightarrow> [] | Some out \<Rightarrow> [AsPath out]) @ libOuts ls"
  by (simp_all add: libOuts_def)

lemma partition_loop_eq:
  "partition_loop deps ins alwaysLinkLibs otherLibs =
     (ins @ libOuts deps,
      alwaysLinkLibs @ libOuts (filter lib_AlwaysLink deps),
      otherLibs @ libOuts (filter (\<lambda>l. \<not> lib_AlwaysLink l) deps))"
  by (induction deps arbitrary: ins alwaysLinkLibs otherLibs) (auto split: option.splits)

text \<open>
  The link command as a text: the compiler, \<open>-pipe\<close>, \<open>-o\<close>, the output path, the
  objects, the always-link libraries between the two markers, the other libraries,
  the flags.
\<close>

lemma GccToolchain_Binary_text:
  "GccToolchain_Binary d gcc out objs alwaysLinkLibs libs flags script =
     fmt_q_path d (gcc_Cxx gcc) @ '' -pipe -o '' @ fmt_q_path d out @ '' ''
       @ concat (map (\<lambda>p. fmt_q_path d p @ '' '') objs)
       @ '' -Wl,-whole-archive '' @ concat (map (\<lambda>p. fmt_q_path d p @ '' '') alwaysLinkLibs)
       @ '' -Wl,-no-whole-archive '' @ concat (map (\<lambda>p. fmt_q_path d p @ '' '') libs)
       @ '' ''
       @ Join (gcc_LinkerFlags gcc @ flags
               @ (case script of
                    Some s \<Rightarrow> [''-T'', fmt_q_path d s]
                  | None \<Rightarrow> (case gcc_LinkerScript gcc of
                               Some s \<Rightarrow> [''-T'', fmt_q_path d s]
                             | None \<Rightarrow> []))) '' ''"
  by (simp add: GccToolchain_Binary_def joinQuoted_eq split: option.splits)

text \<open>What a shell reads from it, when the paths are plain.\<close>

lemma GccToolchain_Binary_tokens:
  assumes "plain (Absolute d (gcc_Cxx gcc))" and "plain (Absolute d out)"
      and "list_all (\<lambda>p. plain (Absolute d p)) objs"
      and "list_all (\<lambda>p. plain (Absolute d p)) alwaysLinkLibs"
      and "list_all (\<lambda>p. plain (Absolute d p)) libs"
  shows "shell_tokens vars
           (fmt_q_path d (gcc_Cxx gcc) @ '' -pipe -o '' @ fmt_q_path d out @ '' ''
              @ concat (map (\<lambda>p. fmt_q_path d p @ '' '') objs)
              @ '' -Wl,-whole-archive '' @ concat (map (\<lambda>p. fmt_q_path d p @ '' '') alwaysLinkLibs)
              @ '' -Wl,-no-whole-archive '' @ concat (map (\<lambda>p. fmt_q_path d p @ '' '') libs)
              @ '' '' @ flags) =
         map_option
           (\<lambda>tail. map Word ([Absolute d (gcc_Cxx gcc), ''-pipe'', ''-o'', Absolute d out]
                             @ map (Absolute d) objs
                             @ [''-Wl,-whole-archive''] @ map (Absolute d) alwaysLinkLibs
                             @ [''-Wl,-no-whole-archive''] @ map (Absolute d) libs) @ tail)
           (shell_tokens vars flags)"
proof -
  let ?W = "\<lambda>ps. map (\<lambda>p. Word (Absolute d p)) ps"
  let ?t = "shell_lex vars False flags NoWord"
  have 3: "shell_lex vars False (joinQuoted d libs @ CHR '' '' # flags) NoWord
             = map_option ((@) (?W libs)) ?t"
    unfolding lex_joinQuoted[OF assms(5)] by (cases ?t) simp_all
  have 2: "shell_lex vars False (joinQuoted d alwaysLinkLibs @ '' -Wl,-no-whole-archive ''
               @ joinQuoted d libs @ CHR '' '' # flags) NoWord
             = map_option (\<lambda>tail. ?W alwaysLinkLibs @ Word ''-Wl,-no-whole-archive'' # ?W libs @ tail) ?t"
    unfolding lex_joinQuoted[OF assms(4)] using 3
    by (cases ?t) (simp_all add: word_char_def letter_def digit_def put_def dquote_def)
  have 1: "shell_lex vars False (joinQuoted d objs @ '' -Wl,-whole-archive ''
               @ joinQuoted d alwaysLinkLibs @ '' -Wl,-no-whole-archive ''
               @ joinQuoted d libs @ CHR '' '' # flags) NoWord
             = map_option (\<lambda>tail. ?W objs @ Word ''-Wl,-whole-archive'' # ?W alwaysLinkLibs
                                  @ Word ''-Wl,-no-whole-archive'' # ?W libs @ tail) ?t"
    unfolding lex_joinQuoted[OF assms(3)] using 2
    by (cases ?t) (simp_all add: word_char_def letter_def digit_def put_def dquote_def)
  have 0: "shell_lex vars False (fmt_q (isPrintTable d) (Absolute d out) @ CHR '' '' # joinQuoted d objs
               @ '' -Wl,-whole-archive '' @ joinQuoted d alwaysLinkLibs @ '' -Wl,-no-whole-archive ''
               @ joinQuoted d libs @ CHR '' '' # flags) NoWord
             = map_option (\<lambda>tail. Word (Absolute d out) # ?W objs @ Word ''-Wl,-whole-archive''
                                  # ?W alwaysLinkLibs
                                  @ Word ''-Wl,-no-whole-archive'' # ?W libs @ tail) ?t"
    unfolding lex_fmt_q_space[OF assms(2)] using 1 by (cases ?t) simp_all
  have "shell_lex vars False (fmt_q (isPrintTable d) (Absolute d (gcc_Cxx gcc)) @ CHR '' '' # ''-pipe -o ''
               @ fmt_q (isPrintTable d) (Absolute d out) @ CHR '' '' # joinQuoted d objs
               @ '' -Wl,-whole-archive '' @ joinQuoted d alwaysLinkLibs @ '' -Wl,-no-whole-archive ''
               @ joinQuoted d libs @ CHR '' '' # flags) NoWord
             = map_option (\<lambda>tail. Word (Absolute d (gcc_Cxx gcc)) # Word ''-pipe'' # Word ''-o''
                                  # Word (Absolute d out) # ?W objs @ Word ''-Wl,-whole-archive''
                                  # ?W alwaysLinkLibs
                                  @ Word ''-Wl,-no-whole-archive'' # ?W libs @ tail) ?t"
    unfolding lex_fmt_q_space[OF assms(1)] using 0
    by (cases ?t) (simp_all add: word_char_def letter_def digit_def put_def dquote_def)
  then show ?thesis
    by (simp add: shell_tokens_def fmt_q_path_def joinQuoted_eq comp_def)
qed

lemma collect_no_nil_Out:
  assumes "collectDepsWithToolchain n e h T deps = Some (Inr libs)"
  shows "None \<notin> set (map lib_Out libs)"
proof -
  obtain V' where rec: "collectDepsWithToolchainRec n e h T deps {} = Some (Inr (libs, V'))"
    using collectDepsWithToolchain_Inr[OF assms] by blast
  have "None \<notin> set (map (libPath e) libs)"
    using collectRec_inv[OF rec] by simp
  then show ?thesis by (auto simp: libPath_def image_iff)
qed

lemma compileSources_loop_objs:
  "compileSources_loop e srcs flags includes (Some tc) ctx acc = Inr (objs, ctx') \<Longrightarrow>
     objs = acc @ map (objectPath tc) srcs"
proof (induction srcs arbitrary: ctx acc)
  case Nil
  then show ?case by simp
next
  case (Cons src srcs)
  from Cons.prems obtain c1 where
    "compileSources_loop e srcs flags includes (Some tc) c1 (acc @ [objectPath tc src]) = Inr (objs, ctx')"
    by (auto simp: Let_def ObjectFile_out_def objectPath_def dest!: bindE_Inr)
  from Cons.IH[OF this] show ?case by simp
qed

lemma compileSources_objs:
  "compileSources e ctx srcs flags deps (Some tc) = Inr (objs, ctx') \<Longrightarrow>
     objs = map (objectPath tc) srcs"
  by (auto simp: compileSources_def Let_def dest: compileSources_loop_objs)

text \<open>
  C6. When the build of a binary under a gcc toolchain returns a context, the command
  of its last step, the link step, is the text: the compiler, \<open>-pipe\<close>, \<open>-o\<close> and the
  output path; the objects of the binary's sources; the marker \<open>-Wl,-whole-archive\<close>;
  the output paths of exactly the libraries of the closure with the always-link flag,
  in the order of the closure; the marker \<open>-Wl,-no-whole-archive\<close>; the output paths
  of the other libraries of the closure, in the order of the closure; then the
  linker flags; every path written by \<open>%q\<close> and followed by a space. Every library of
  the closure has an output path, so none is left out. When the paths are plain, a
  shell reads the command, whatever its variables, as these words in this order,
  every path one word equal to the path, followed by what it reads from the flags.
\<close>

theorem Binary_Build_link_order:
  assumes "Binary_Build n e h bin ctx = Some (Inr ctx')"
      and "toolchainOrDefault e (bin_Toolchain bin) = Inr (Gcc gcc)"
  shows "\<exists>out deps.
           bin_Out bin = Some out
           \<and> collectDepsWithToolchain n e h (Some (Gcc gcc))
                (map (load h) (bin_Deps bin) @ map (load h) (gcc_Deps gcc)) = Some (Inr deps)
           \<and> None \<notin> set (map lib_Out deps)
           \<and> step_Cmd (last (ctx_steps ctx')) =
               fmt_q_path (env_dirs e) (gcc_Cxx gcc) @ '' -pipe -o ''
                 @ fmt_q_path (env_dirs e) (AsPath out) @ '' ''
                 @ concat (map (\<lambda>p. fmt_q_path (env_dirs e) p @ '' '')
                             (map (objectPath (Gcc gcc)) (bin_Srcs bin)))
                 @ '' -Wl,-whole-archive ''
                 @ concat (map (\<lambda>p. fmt_q_path (env_dirs e) p @ '' '')
                             (libOuts (filter lib_AlwaysLink deps)))
                 @ '' -Wl,-no-whole-archive ''
                 @ concat (map (\<lambda>p. fmt_q_path (env_dirs e) p @ '' '')
                             (libOuts (filter (\<lambda>l. \<not> lib_AlwaysLink l) deps)))
                 @ '' ''
                 @ Join (gcc_LinkerFlags gcc @ bin_LinkerFlags bin
                         @ (case bin_Script bin of
                              Some s \<Rightarrow> [''-T'', fmt_q_path (env_dirs e) s]
                            | None \<Rightarrow> (case gcc_LinkerScript gcc of
                                         Some s \<Rightarrow> [''-T'', fmt_q_path (env_dirs e) s]
                                       | None \<Rightarrow> []))) '' ''
           \<and> (plain (Absolute (env_dirs e) (gcc_Cxx gcc))
                \<and> plain (Absolute (env_dirs e) (AsPath out))
                \<and> list_all (\<lambda>p. plain (Absolute (env_dirs e) p))
                     (map (objectPath (Gcc gcc)) (bin_Srcs bin) @ libOuts deps)
              \<longrightarrow> shell_tokens vars (step_Cmd (last (ctx_steps ctx'))) =
                    map_option
                      (\<lambda>tail.
                         map Word
                           ([Absolute (env_dirs e) (gcc_Cxx gcc), ''-pipe'', ''-o'',
                             Absolute (env_dirs e) (AsPath out)]
                            @ map (Absolute (env_dirs e)) (map (objectPath (Gcc gcc)) (bin_Srcs bin))
                            @ [''-Wl,-whole-archive'']
                            @ map (Absolute (env_dirs e)) (libOuts (filter lib_AlwaysLink deps))
                            @ [''-Wl,-no-whole-archive'']
                            @ map (Absolute (env_dirs e))
                                (libOuts (filter (\<lambda>l. \<not> lib_AlwaysLink l) deps)))
                         @ tail)
                      (shell_tokens vars
                         (Join (gcc_LinkerFlags gcc @ bin_LinkerFlags bin
                                @ (case bin_Script bin of
                                     Some s \<Rightarrow> [''-T'', fmt_q_path (env_dirs e) s]
                                   | None \<Rightarrow> (case gcc_LinkerScript gcc of
                                                Some s \<Rightarrow> [''-T'', fmt_q_path (env_dirs e) s]
                                              | None \<Rightarrow> []))) '' '')))"
proof -
  let ?d = "env_dirs e"
  let ?flags = "Join (gcc_LinkerFlags gcc @ bin_LinkerFlags bin
                         @ (case bin_Script bin of
                              Some s \<Rightarrow> [''-T'', fmt_q_path ?d s]
                            | None \<Rightarrow> (case gcc_LinkerScript gcc of
                                         Some s \<Rightarrow> [''-T'', fmt_q_path ?d s]
                                       | None \<Rightarrow> []))) '' ''"
  from assms(1) obtain out where out: "bin_Out bin = Some out"
    by (auto simp: Binary_Build_def split: option.splits)
  with assms(1) have b: "Binary_build n e h bin ctx = Some (Inr ctx')"
    by (simp add: Binary_Build_def WithTrace_def)
  from b assms(2) obtain deps c1 objs c2 where
    deps: "collectDepsWithToolchain n e h (Some (Gcc gcc))
             (map (load h) (bin_Deps bin) @ map (load h) (gcc_Deps gcc)) = Some (Inr deps)"
    and "forEach deps (Library_Build n e h) ctx = Some (Inr c1)"
    and cs: "compileSources e c1 (bin_Srcs bin) (bin_CompilerFlags bin) deps (Some (Gcc gcc)) = Inr (objs, c2)"
    and last: "step_Cmd (last (ctx_steps ctx')) =
             GccToolchain_Binary ?d gcc (AsPath out) objs
               (libOuts (filter lib_AlwaysLink deps))
               (libOuts (filter (\<lambda>l. \<not> lib_AlwaysLink l) deps))
               (bin_LinkerFlags bin) (bin_Script bin)"
    unfolding Binary_build_def
    by (auto simp: out partition_loop_eq AddBuildStep_def Let_def
          dest!: bindR_Some_Inr split: prod.splits)
  let ?objs = "map (objectPath (Gcc gcc)) (bin_Srcs bin)"
  let ?always = "libOuts (filter lib_AlwaysLink deps)"
  let ?others = "libOuts (filter (\<lambda>l. \<not> lib_AlwaysLink l) deps)"
  let ?text = "fmt_q_path ?d (gcc_Cxx gcc) @ '' -pipe -o '' @ fmt_q_path ?d (AsPath out) @ '' ''
                 @ concat (map (\<lambda>p. fmt_q_path ?d p @ '' '') ?objs)
                 @ '' -Wl,-whole-archive '' @ concat (map (\<lambda>p. fmt_q_path ?d p @ '' '') ?always)
                 @ '' -Wl,-no-whole-archive '' @ concat (map (\<lambda>p. fmt_q_path ?d p @ '' '') ?others)
                 @ '' '' @ ?flags"
  have cmd: "step_Cmd (last (ctx_steps ctx')) = ?text"
    unfolding last compileSources_objs[OF cs] GccToolchain_Binary_text ..
  have sub: "list_all P (libOuts (filter Q deps))" if "list_all P (libOuts deps)" for P Q
    using that by (induction deps) (auto split: option.splits)
  have read: "shell_tokens vars ?text =
                map_option
                  (\<lambda>tail. map Word ([Absolute ?d (gcc_Cxx gcc), ''-pipe'', ''-o'', Absolute ?d (AsPath out)]
                             @ map (Absolute ?d) ?objs
                             @ [''-Wl,-whole-archive''] @ map (Absolute ?d) ?always
                             @ [''-Wl,-no-whole-archive''] @ map (Absolute ?d) ?others) @ tail)
                  (shell_tokens vars ?flags)"
    if "plain (Absolute ?d (gcc_Cxx gcc)) \<and> plain (Absolute ?d (AsPath out))
          \<and> list_all (\<lambda>p. plain (Absolute ?d p)) (?objs @ libOuts deps)"
    using that by (intro GccToolchain_Binary_tokens) (simp_all add: sub)
  show ?thesis
    using out deps collect_no_nil_Out[OF deps] cmd read by (intro exI[of _ out] exI[of _ deps]) simp
qed

lemma libD_fields [simp]:
  "lib_Out libD = Some (OutPath ''d.a'')" "lib_Srcs libD = []"
  "lib_Blobs libD = []" "lib_Objs libD = []" "lib_Includes libD = []"
  "lib_CompilerFlags libD = []" "lib_Deps libD = []" "lib_Shared libD = False"
  "lib_AlwaysLink libD = False" "lib_Toolchain libD = None"
  by (simp_all add: libD_def emptyLibrary_def)

lemma libW_fields [simp]:
  "lib_Out libW = Some (OutPath ''w.a'')" "lib_Srcs libW = []"
  "lib_Blobs libW = []" "lib_Objs libW = []" "lib_Includes libW = []"
  "lib_CompilerFlags libW = []" "lib_Deps libW = []" "lib_Shared libW = False"
  "lib_AlwaysLink libW = True" "lib_Toolchain libW = None"
  by (simp_all add: libW_def emptyLibrary_def)

lemma Library_CcLibrary_unpinned [simp]:
  "lib_Toolchain l = None \<Longrightarrow> Library_CcLibrary env0 l (Some (Gcc NativeGcc)) = Inr l"
  by (simp add: Library_CcLibrary_def)

lemma collect_app:
  "collectDepsWithToolchain (Suc (Suc (Suc 0))) env0 appHeap (Some (Gcc NativeGcc))
     [load appHeap 0, load appHeap (Suc 0)] = Some (Inr [libD, libW])"
  by (simp add: collectDepsWithToolchain_def appHeap_def load_def)

lemma collect_leaf:
  assumes "lib_Out l = Some out" and "lib_Deps l = []" and "lib_Toolchain l = None"
  shows "collectDepsWithToolchain (Suc (Suc n)) env0 h (Some (Gcc NativeGcc)) [Some (DepLibrary l)]
           = Some (Inr [l])"
  using assms by (simp add: collectDepsWithToolchain_def)

lemma own_leaf:
  assumes "lib_Srcs l = []" and "lib_Blobs l = []" and "lib_Shared l = False"
  shows "Library_build_own env0 l out (Gcc NativeGcc) deps c = Inr (AddBuildStep c (archiveStep l out))"
  using assms by (simp add: Library_build_own_def compileSources_def archiveStep_def Let_def)

lemma build_leaf:
  assumes "lib_Out l = Some out" and "lib_Deps l = []" and "lib_Toolchain l = None"
      and "lib_Srcs l = []" and "lib_Blobs l = []" and "lib_Shared l = False"
      and "Absolute (env_dirs env0) (AsPath out) \<notin> ctx_built c"
  shows "Library_Build (Suc (Suc (Suc n))) env0 h l c =
           Some (Inr (AddBuildStep (c\<lparr>ctx_built := insert (Absolute (env_dirs env0) (AsPath out))
                                                    (ctx_built c)\<rparr>) (archiveStep l out)))"
  using assms
  by (simp add: Library_Build_def WithTrace_def Built_def collect_leaf own_leaf)

lemma build_app:
  "\<exists>c. Binary_Build (Suc (Suc (Suc 0))) env0 appHeap appBinary ctx0 = Some (Inr c)"
  by (simp add: Binary_Build_def Binary_build_def WithTrace_def appBinary_def collect_app
        build_leaf ctx0_def compileSources_def AddBuildStep_def partition_loop_eq)

theorem Binary_Build_link_order_witness:
  "toolchainOrDefault env0 (bin_Toolchain appBinary) = Inr (Gcc NativeGcc)
   \<and> (\<exists>c. Binary_Build (Suc (Suc (Suc 0))) env0 appHeap appBinary ctx0 = Some (Inr c)
         \<and> step_Cmd (last (ctx_steps c)) =
             fmt_q_path (env_dirs env0) (GlobalPath ''g++'') @ '' -pipe -o ''
               @ fmt_q_path (env_dirs env0) (AsPath (OutPath ''app'')) @ ''  -Wl,-whole-archive ''
               @ fmt_q_path (env_dirs env0) (AsPath (OutPath ''w.a'')) @ ''  -Wl,-no-whole-archive ''
               @ fmt_q_path (env_dirs env0) (AsPath (OutPath ''d.a''))
               @ ''  -fdiagnostics-color=always''
         \<and> shell_tokens unset (step_Cmd (last (ctx_steps c))) =
             Some [Word ''g++'', Word ''-pipe'', Word ''-o'', Word ''/out/app'',
                   Word ''-Wl,-whole-archive'', Word ''/out/w.a'',
                   Word ''-Wl,-no-whole-archive'', Word ''/out/d.a'',
                   Word ''-fdiagnostics-color=always''])"
proof -
  have t: "toolchainOrDefault env0 (bin_Toolchain appBinary) = Inr (Gcc NativeGcc)"
    by (simp add: appBinary_def)
  obtain c where c: "Binary_Build (Suc (Suc (Suc 0))) env0 appHeap appBinary ctx0 = Some (Inr c)"
    using build_app by blast
  have flags: "shell_tokens unset ''-fdiagnostics-color=always'' = Some [Word ''-fdiagnostics-color=always'']"
    by (simp add: shell_tokens_def word_char_def letter_def digit_def put_def dquote_def)
  have "step_Cmd (last (ctx_steps c)) =
             fmt_q_path (env_dirs env0) (GlobalPath ''g++'') @ '' -pipe -o ''
               @ fmt_q_path (env_dirs env0) (AsPath (OutPath ''app'')) @ ''  -Wl,-whole-archive ''
               @ fmt_q_path (env_dirs env0) (AsPath (OutPath ''w.a'')) @ ''  -Wl,-no-whole-archive ''
               @ fmt_q_path (env_dirs env0) (AsPath (OutPath ''d.a''))
               @ ''  -fdiagnostics-color=always''
         \<and> shell_tokens unset (step_Cmd (last (ctx_steps c))) =
             Some [Word ''g++'', Word ''-pipe'', Word ''-o'', Word ''/out/app'',
                   Word ''-Wl,-whole-archive'', Word ''/out/w.a'',
                   Word ''-Wl,-no-whole-archive'', Word ''/out/d.a'',
                   Word ''-fdiagnostics-color=always'']"
    using Binary_Build_link_order [OF c t, of unset] collect_app flags
    by (auto simp: appBinary_def plain_def plain_char_def printable_ascii_def)
  with t c show ?thesis by blast
qed

end
